theory Spec2Isabelle
  imports Complex_Main
begin

section \<open>Values, classes and the store\<close>

text \<open>
  The module \<^verbatim>\<open>ib_insync/order.py\<close> declares record classes on top of a generic base class
  \<^verbatim>\<open>Object\<close>. Every class carries a dictionary \<^verbatim>\<open>defaults\<close> of field names and default
  values, in declaration order, and takes its \<^verbatim>\<open>__slots__\<close> from the keys of that dictionary.

  Python values are dynamically typed. A value is a scalar or a reference to a cell of the
  store; lists and class instances live in the store, so that identity (\<^verbatim>\<open>is\<close>, \<^verbatim>\<open>id\<close>),
  in-place mutation and freshness of an allocation can be expressed. A float that is
  stored in a field of an instance is modelled by the real number it denotes: the classes
  and constructors of this part only store and compare floats. The queries of a trade that
  compute with floats are modelled over the float arithmetic of the platform (section
  Trade).
\<close>

type_synonym addr = nat

datatype pyval =
    PNone
  | PBool bool
  | PInt int
  | PFloat real
  | PStr string
  | PRef addr

text \<open>The exceptions that the modelled code can raise.\<close>

datatype error = KeyError | TypeError | AttributeError

text \<open>A dictionary with string keys, in insertion order (keyword arguments, \<^verbatim>\<open>defaults\<close>,
  the attributes of an instance).\<close>

type_synonym fields = "(string \<times> pyval) list"

text \<open>The classes of the module, and \<^verbatim>\<open>SoftDollarTier\<close>, which \<^verbatim>\<open>Order.__init__\<close> instantiates.\<close>

datatype cls =
    OrderCondition
  | PriceCondition
  | TimeCondition
  | MarginCondition
  | ExecutionCondition
  | VolumeCondition
  | PercentChangeCondition
  | OrderStatus
  | Order
  | LimitOrder
  | MarketOrder
  | StopOrder
  | StopLimitOrder
  | SoftDollarTier

datatype cell =
    Inst cls fields
  | ListObj "pyval list"

text \<open>The store is the sequence of the cells allocated so far; an address is an index.\<close>

type_synonym heap = "cell list"

definition lookup :: "heap \<Rightarrow> addr \<Rightarrow> cell option" where
  "lookup h a = (if a < length h then Some (h ! a) else None)"

definition alloc :: "heap \<Rightarrow> cell \<Rightarrow> heap \<times> addr" where
  "alloc h c = (h @ [c], length h)"

text \<open>
  What the module imports and this development does not have: the two sentinels of
  \<^verbatim>\<open>util\<close>, the declared defaults of \<^verbatim>\<open>SoftDollarTier\<close>, and the truth value of an
  instance (\<^verbatim>\<open>__bool__\<close> or \<^verbatim>\<open>__len__\<close>, which no class of this module defines but the
  classes of \<^verbatim>\<open>objects\<close> may). They are parameters of the model.
\<close>

record ext =
  UNSET_DOUBLE :: real
  UNSET_INTEGER :: int
  SoftDollarTier_defaults :: fields
  instance_bool :: "cls \<Rightarrow> fields \<Rightarrow> bool"

section \<open>Declared defaults\<close>

definition PriceCondition_defaults :: fields where
  "PriceCondition_defaults = [
     (''condType'', PInt 1),
     (''conjunction'', PStr ''a''),
     (''isMore'', PBool True),
     (''price'', PFloat 0),
     (''conId'', PInt 0),
     (''exch'', PStr []),
     (''triggerMethod'', PInt 0)]"

definition TimeCondition_defaults :: fields where
  "TimeCondition_defaults = [
     (''condType'', PInt 3),
     (''conjunction'', PStr ''a''),
     (''isMore'', PBool True),
     (''time'', PStr [])]"

definition MarginCondition_defaults :: fields where
  "MarginCondition_defaults = [
     (''condType'', PInt 4),
     (''conjunction'', PStr ''a''),
     (''isMore'', PBool True),
     (''percent'', PInt 0)]"

definition ExecutionCondition_defaults :: fields where
  "ExecutionCondition_defaults = [
     (''condType'', PInt 5),
     (''conjunction'', PStr ''a''),
     (''secType'', PStr []),
     (''exch'', PStr []),
     (''symbol'', PStr [])]"

definition VolumeCondition_defaults :: fields where
  "VolumeCondition_defaults = [
     (''condType'', PInt 6),
     (''conjunction'', PStr ''a''),
     (''isMore'', PBool True),
     (''volume'', PInt 0),
     (''conId'', PInt 0),
     (''exch'', PStr [])]"

definition PercentChangeCondition_defaults :: fields where
  "PercentChangeCondition_defaults = [
     (''condType'', PInt 7),
     (''conjunction'', PStr ''a''),
     (''isMore'', PBool True),
     (''changePercent'', PFloat 0),
     (''conId'', PInt 0),
     (''exch'', PStr [])]"

definition OrderStatus_defaults :: fields where
  "OrderStatus_defaults = [
     (''orderId'', PInt 0),
     (''status'', PStr []),
     (''filled'', PInt 0),
     (''remaining'', PInt 0),
     (''avgFillPrice'', PFloat 0),
     (''permId'', PInt 0),
     (''parentId'', PInt 0),
     (''lastFillPrice'', PFloat 0),
     (''clientId'', PInt 0),
     (''whyHeld'', PStr []),
     (''mktCapPrice'', PFloat 0),
     (''lastLiquidity'', PInt 0)]"

definition Order_defaults :: "ext \<Rightarrow> fields" where
  "Order_defaults u = [
     (''orderId'', PInt 0),
     (''clientId'', PInt 0),
     (''permId'', PInt 0),
     (''action'', PStr []),
     (''totalQuantity'', PFloat 0),
     (''orderType'', PStr []),
     (''lmtPrice'', PFloat (UNSET_DOUBLE u)),
     (''auxPrice'', PFloat (UNSET_DOUBLE u)),
     (''tif'', PStr []),
     (''activeStartTime'', PStr []),
     (''activeStopTime'', PStr []),
     (''ocaGroup'', PStr []),
     (''ocaType'', PInt 0),
     (''orderRef'', PStr []),
     (''transmit'', PBool True),
     (''parentId'', PInt 0),
     (''blockOrder'', PBool False),
     (''sweepToFill'', PBool False),
     (''displaySize'', PInt 0),
     (''triggerMethod'', PInt 0),
     (''outsideRth'', PBool False),
     (''hidden'', PBool False),
     (''goodAfterTime'', PStr []),
     (''goodTillDate'', PStr []),
     (''rule80A'', PStr []),
     (''allOrNone'', PBool False),
     (''minQty'', PInt (UNSET_INTEGER u)),
     (''percentOffset'', PFloat (UNSET_DOUBLE u)),
     (''overridePercentageConstraints'', PBool False),
     (''trailStopPrice'', PFloat (UNSET_DOUBLE u)),
     (''trailingPercent'', PFloat (UNSET_DOUBLE u)),
     (''faGroup'', PStr []),
     (''faProfile'', PStr []),
     (''faMethod'', PStr []),
     (''faPercentage'', PStr []),
     (''designatedLocation'', PStr []),
     (''openClose'', PStr ''O''),
     (''origin'', PInt 0),
     (''shortSaleSlot'', PInt 0),
     (''exemptCode'', PInt (-1)),
     (''discretionaryAmt'', PInt 0),
     (''eTradeOnly'', PBool True),
     (''firmQuoteOnly'', PBool True),
     (''nbboPriceCap'', PFloat (UNSET_DOUBLE u)),
     (''optOutSmartRouting'', PBool False),
     (''auctionStrategy'', PInt 0),
     (''startingPrice'', PFloat (UNSET_DOUBLE u)),
     (''stockRefPrice'', PFloat (UNSET_DOUBLE u)),
     (''delta'', PFloat (UNSET_DOUBLE u)),
     (''stockRangeLower'', PFloat (UNSET_DOUBLE u)),
     (''stockRangeUpper'', PFloat (UNSET_DOUBLE u)),
     (''randomizePrice'', PBool False),
     (''randomizeSize'', PBool False),
     (''volatility'', PFloat (UNSET_DOUBLE u)),
     (''volatilityType'', PInt (UNSET_INTEGER u)),
     (''deltaNeutralOrderType'', PStr []),
     (''deltaNeutralAuxPrice'', PFloat (UNSET_DOUBLE u)),
     (''deltaNeutralConId'', PInt 0),
     (''deltaNeutralSettlingFirm'', PStr []),
     (''deltaNeutralClearingAccount'', PStr []),
     (''deltaNeutralClearingIntent'', PStr []),
     (''deltaNeutralOpenClose'', PStr []),
     (''deltaNeutralShortSale'', PBool False),
     (''deltaNeutralShortSaleSlot'', PInt 0),
     (''deltaNeutralDesignatedLocation'', PStr []),
     (''continuousUpdate'', PBool False),
     (''referencePriceType'', PInt (UNSET_INTEGER u)),
     (''basisPoints'', PFloat (UNSET_DOUBLE u)),
     (''basisPointsType'', PInt (UNSET_INTEGER u)),
     (''scaleInitLevelSize'', PInt (UNSET_INTEGER u)),
     (''scaleSubsLevelSize'', PInt (UNSET_INTEGER u)),
     (''scalePriceIncrement'', PFloat (UNSET_DOUBLE u)),
     (''scalePriceAdjustValue'', PFloat (UNSET_DOUBLE u)),
     (''scalePriceAdjustInterval'', PInt (UNSET_INTEGER u)),
     (''scaleProfitOffset'', PFloat (UNSET_DOUBLE u)),
     (''scaleAutoReset'', PBool False),
     (''scaleInitPosition'', PInt (UNSET_INTEGER u)),
     (''scaleInitFillQty'', PInt (UNSET_INTEGER u)),
     (''scaleRandomPercent'', PBool False),
     (''scaleTable'', PStr []),
     (''hedgeType'', PStr []),
     (''hedgeParam'', PStr []),
     (''account'', PStr []),
     (''settlingFirm'', PStr []),
     (''clearingAccount'', PStr []),
     (''clearingIntent'', PStr []),
     (''algoStrategy'', PStr []),
     (''algoParams'', PNone),
     (''smartComboRoutingParams'', PNone),
     (''algoId'', PStr []),
     (''whatIf'', PBool False),
     (''notHeld'', PBool False),
     (''solicited'', PBool False),
     (''modelCode'', PStr []),
     (''orderComboLegs'', PNone),
     (''orderMiscOptions'', PNone),
     (''referenceContractId'', PInt 0),
     (''peggedChangeAmount'', PFloat 0),
     (''isPeggedChangeAmountDecrease'', PBool False),
     (''referenceChangeAmount'', PFloat 0),
     (''referenceExchangeId'', PStr []),
     (''adjustedOrderType'', PStr []),
     (''triggerPrice'', PFloat (UNSET_DOUBLE u)),
     (''adjustedStopPrice'', PFloat (UNSET_DOUBLE u)),
     (''adjustedStopLimitPrice'', PFloat (UNSET_DOUBLE u)),
     (''adjustedTrailingAmount'', PFloat (UNSET_DOUBLE u)),
     (''adjustableTrailingUnit'', PInt 0),
     (''lmtPriceOffset'', PFloat (UNSET_DOUBLE u)),
     (''conditions'', PNone),
     (''conditionsCancelOrder'', PBool False),
     (''conditionsIgnoreRth'', PBool False),
     (''extOperator'', PStr []),
     (''softDollarTier'', PNone),
     (''cashQty'', PFloat (UNSET_DOUBLE u)),
     (''mifid2DecisionMaker'', PStr []),
     (''mifid2DecisionAlgo'', PStr []),
     (''mifid2ExecutionTrader'', PStr []),
     (''mifid2ExecutionAlgo'', PStr []),
     (''dontUseAutoPriceForHedge'', PBool False),
     (''isOmsContainer'', PBool False),
     (''discretionaryUpToLimitPrice'', PBool False),
     (''autoCancelDate'', PStr []),
     (''filledQuantity'', PFloat (UNSET_DOUBLE u)),
     (''refFuturesConId'', PInt 0),
     (''autoCancelParent'', PBool False),
     (''shareholder'', PStr []),
     (''imbalanceOnly'', PBool False),
     (''routeMarketableToBbo'', PBool False),
     (''parentPermId'', PInt 0),
     (''usePriceMgmtAlgo'', PBool False)]"

text \<open>
  A class that declares no \<^verbatim>\<open>defaults\<close> of its own inherits them: the four typed orders
  inherit those of \<^verbatim>\<open>Order\<close>, and the base class \<^verbatim>\<open>OrderCondition\<close> declares no field.
\<close>

fun defaults :: "ext \<Rightarrow> cls \<Rightarrow> fields" where
  "defaults u OrderCondition = []"
| "defaults u PriceCondition = PriceCondition_defaults"
| "defaults u TimeCondition = TimeCondition_defaults"
| "defaults u MarginCondition = MarginCondition_defaults"
| "defaults u ExecutionCondition = ExecutionCondition_defaults"
| "defaults u VolumeCondition = VolumeCondition_defaults"
| "defaults u PercentChangeCondition = PercentChangeCondition_defaults"
| "defaults u OrderStatus = OrderStatus_defaults"
| "defaults u Order = Order_defaults u"
| "defaults u LimitOrder = Order_defaults u"
| "defaults u MarketOrder = Order_defaults u"
| "defaults u StopOrder = Order_defaults u"
| "defaults u StopLimitOrder = Order_defaults u"
| "defaults u SoftDollarTier = SoftDollarTier_defaults u"

text \<open>\<^verbatim>\<open>__slots__ = defaults.keys()\<close>; the typed orders add no slot (\<^verbatim>\<open>__slots__ = ()\<close>).\<close>

definition slots :: "ext \<Rightarrow> cls \<Rightarrow> string list" where
  "slots u c = map fst (defaults u c)"

text \<open>\<^verbatim>\<open>issubclass(c, Order)\<close> and \<^verbatim>\<open>issubclass(c, OrderCondition)\<close>.\<close>

definition is_Order :: "cls \<Rightarrow> bool" where
  "is_Order c = (c \<in> {Order, LimitOrder, MarketOrder, StopOrder, StopLimitOrder})"

definition is_OrderCondition :: "cls \<Rightarrow> bool" where
  "is_OrderCondition c =
     (c \<in> {OrderCondition, PriceCondition, TimeCondition, MarginCondition,
            ExecutionCondition, VolumeCondition, PercentChangeCondition})"

section \<open>Dictionaries and attributes\<close>

text \<open>\<^verbatim>\<open>d[k] = v\<close>: an existing key keeps its place, a new key goes last.\<close>

fun dict_set :: "fields \<Rightarrow> string \<Rightarrow> pyval \<Rightarrow> fields" where
  "dict_set [] k v = [(k, v)]"
| "dict_set ((k', v') # d) k v =
     (if k' = k then (k, v) # d else (k', v') # dict_set d k v)"

text \<open>\<^verbatim>\<open>{**d, **e}\<close>: the entries of \<open>e\<close> are stored into \<open>d\<close> one after the other.\<close>

fun dict_update :: "fields \<Rightarrow> fields \<Rightarrow> fields" where
  "dict_update d [] = d"
| "dict_update d ((k, v) # e) = dict_update (dict_set d k v) e"

text \<open>
  Reading an attribute of a value. Only an instance has the attributes of this module, and
  only those that have been set; everything else raises \<^verbatim>\<open>AttributeError\<close>.
\<close>

definition getattr :: "heap \<Rightarrow> pyval \<Rightarrow> string \<Rightarrow> error + pyval" where
  "getattr h self k =
     (case self of
        PRef a \<Rightarrow>
          (case lookup h a of
             Some (Inst c fs) \<Rightarrow>
               (case map_of fs k of None \<Rightarrow> Inl AttributeError | Some v \<Rightarrow> Inr v)
           | _ \<Rightarrow> Inl AttributeError)
      | _ \<Rightarrow> Inl AttributeError)"

text \<open>
  Storing an attribute mutates the instance in place. The classes have slots and no
  instance dictionary, so a name that is not a slot of the class raises \<^verbatim>\<open>AttributeError\<close>.
\<close>

definition setattr :: "ext \<Rightarrow> heap \<Rightarrow> pyval \<Rightarrow> string \<Rightarrow> pyval \<Rightarrow> error + heap" where
  "setattr u h self k v =
     (case self of
        PRef a \<Rightarrow>
          (case lookup h a of
             Some (Inst c fs) \<Rightarrow>
               (if k \<in> set (slots u c) then Inr (h[a := Inst c (dict_set fs k v)])
                else Inl AttributeError)
           | _ \<Rightarrow> Inl AttributeError)
      | _ \<Rightarrow> Inl AttributeError)"

text \<open>The truth value of a value, as \<^verbatim>\<open>not x\<close> and \<^verbatim>\<open>if x\<close> test it.\<close>

definition truthy :: "ext \<Rightarrow> heap \<Rightarrow> pyval \<Rightarrow> bool" where
  "truthy u h v =
     (case v of
        PNone \<Rightarrow> False
      | PBool b \<Rightarrow> b
      | PInt i \<Rightarrow> i \<noteq> 0
      | PFloat r \<Rightarrow> r \<noteq> 0
      | PStr s \<Rightarrow> s \<noteq> []
      | PRef a \<Rightarrow>
          (case lookup h a of
             Some (ListObj xs) \<Rightarrow> xs \<noteq> []
           | Some (Inst c fs) \<Rightarrow> instance_bool u c fs
           | None \<Rightarrow> True))"

text \<open>
  A value that exists in a store: a scalar, or a reference to one of its cells. The
  arguments of a call exist in the store in which the call starts.
\<close>

definition in_store :: "heap \<Rightarrow> pyval \<Rightarrow> bool" where
  "in_store h v = (case v of PRef a \<Rightarrow> a < length h | _ \<Rightarrow> True)"

section \<open>OrderCondition\<close>

definition createClass :: "int \<Rightarrow> error + cls" where
  "createClass condType =
     (let d = [(1, PriceCondition),
               (3, TimeCondition),
               (4, MarginCondition),
               (5, ExecutionCondition),
               (6, VolumeCondition),
               (7, PercentChangeCondition)]
      in case map_of d condType of None \<Rightarrow> Inl KeyError | Some c \<Rightarrow> Inr c)"

definition And :: "ext \<Rightarrow> heap \<Rightarrow> pyval \<Rightarrow> error + heap \<times> pyval" where
  "And u h self =
     (case setattr u h self ''conjunction'' (PStr ''a'') of
        Inl e \<Rightarrow> Inl e
      | Inr h' \<Rightarrow> Inr (h', self))"

definition Or :: "ext \<Rightarrow> heap \<Rightarrow> pyval \<Rightarrow> error + heap \<times> pyval" where
  "Or u h self =
     (case setattr u h self ''conjunction'' (PStr ''o'') of
        Inl e \<Rightarrow> Inl e
      | Inr h' \<Rightarrow> Inr (h', self))"

section \<open>The base class\<close>

text \<open>
  Modelled from the spec: \<^verbatim>\<open>Object.__init__\<close>, the general constructor of the base class
  in \<^verbatim>\<open>ib_insync/objects.py\<close>, which is not part of the sources at hand. The spec: construct
  from positional values in field order and/or named overrides; unspecified fields take the
  type's declared default; no arbitrary dynamic fields are allowed. Positional values are
  paired with the field names in declaration order, named overrides are applied after them,
  and a name that is not a field of the class raises \<^verbatim>\<open>AttributeError\<close>. The result is the
  attribute dictionary of the initialised instance. (The spec's deep copy of container
  defaults has nothing to copy here: every default of this module is a scalar or
  \<^verbatim>\<open>None\<close>.)
\<close>

definition Object_init :: "ext \<Rightarrow> cls \<Rightarrow> pyval list \<Rightarrow> fields \<Rightarrow> error + fields" where
  "Object_init u c args kwargs =
     (let d = dict_update (dict_update (defaults u c) (zip (slots u c) args)) kwargs
      in if list_all (\<lambda>k. k \<in> set (slots u c)) (map fst d) then Inr d
         else Inl AttributeError)"

text \<open>
  Modelled from the spec: \<^verbatim>\<open>Object.__eq__\<close>, also in \<^verbatim>\<open>objects.py\<close>. The spec: two records
  of the same type are equal iff all field values are equal.
\<close>

definition Object_eq :: "heap \<Rightarrow> pyval \<Rightarrow> pyval \<Rightarrow> bool" where
  "Object_eq h self other =
     (case (self, other) of
        (PRef a, PRef b) \<Rightarrow>
          (case (lookup h a, lookup h b) of
             (Some (Inst c fs), Some (Inst c' fs')) \<Rightarrow> c = c' \<and> fs = fs'
           | _ \<Rightarrow> False)
      | _ \<Rightarrow> False)"

text \<open>
  Calling a class whose \<^verbatim>\<open>__init__\<close> is the base initialiser \<open>B\<close>: a new instance is
  allocated and initialised.
\<close>

definition new_instance ::
  "(cls \<Rightarrow> pyval list \<Rightarrow> fields \<Rightarrow> error + fields) \<Rightarrow> heap \<Rightarrow> cls \<Rightarrow> pyval list \<Rightarrow> fields
     \<Rightarrow> error + heap \<times> pyval" where
  "new_instance B h c args kwargs =
     (case B c args kwargs of
        Inl e \<Rightarrow> Inl e
      | Inr fs \<Rightarrow> (case alloc h (Inst c fs) of (h', a) \<Rightarrow> Inr (h', PRef a)))"

section \<open>Order\<close>

text \<open>
  Binding the keyword arguments of a call to a function \<^verbatim>\<open>def f(p1, ..., pn, **kwargs)\<close>
  whose parameters are all given positionally: a keyword that names one of the parameters
  raises \<^verbatim>\<open>TypeError\<close> (multiple values for an argument) before the body runs, and the
  other keywords make \<^verbatim>\<open>kwargs\<close>.
\<close>

definition bind_keywords :: "string list \<Rightarrow> fields \<Rightarrow> error + fields" where
  "bind_keywords params kwargs =
     (if list_ex (\<lambda>k. k \<in> set params) (map fst kwargs) then Inl TypeError
      else Inr kwargs)"

text \<open>
  The two fix-ups of \<^verbatim>\<open>Order.__init__\<close>, each an \<^verbatim>\<open>if\<close> statement of its body:
  \<^verbatim>\<open>if not self.conditions: self.conditions = []\<close> allocates a new empty list, and
  \<^verbatim>\<open>if not self.softDollarTier: self.softDollarTier = SoftDollarTier()\<close> a new instance
  built without arguments.
\<close>

definition Order_init_conditions :: "ext \<Rightarrow> heap \<Rightarrow> pyval \<Rightarrow> error + heap" where
  "Order_init_conditions u h self =
     (case getattr h self ''conditions'' of
        Inl e \<Rightarrow> Inl e
      | Inr cv \<Rightarrow>
          (if \<not> truthy u h cv
           then (case alloc h (ListObj []) of
                   (h', l) \<Rightarrow> setattr u h' self ''conditions'' (PRef l))
           else Inr h))"

definition Order_init_softDollarTier ::
  "(cls \<Rightarrow> pyval list \<Rightarrow> fields \<Rightarrow> error + fields) \<Rightarrow> ext \<Rightarrow> heap \<Rightarrow> pyval \<Rightarrow> error + heap" where
  "Order_init_softDollarTier B u h self =
     (case getattr h self ''softDollarTier'' of
        Inl e \<Rightarrow> Inl e
      | Inr sv \<Rightarrow>
          (if \<not> truthy u h sv
           then (case new_instance B h SoftDollarTier [] [] of
                   Inl e \<Rightarrow> Inl e
                 | Inr (h', t) \<Rightarrow> setattr u h' self ''softDollarTier'' t)
           else Inr h))"

text \<open>
  \<^verbatim>\<open>Order.__init__\<close>, for a new instance of class \<open>c\<close> (\<^verbatim>\<open>Order\<close> or one of its
  subclasses), over any base initialiser \<open>B\<close>, with the signature
  \<^verbatim>\<open>__init__(self, *args, **kwargs)\<close>: the base initialisation runs first, then the
  two fix-ups in the order of the source. The result is the new store and the reference to
  the order.
\<close>

definition Order_init_with ::
  "(cls \<Rightarrow> pyval list \<Rightarrow> fields \<Rightarrow> error + fields) \<Rightarrow> ext \<Rightarrow> heap \<Rightarrow> cls \<Rightarrow> pyval list \<Rightarrow> fields
     \<Rightarrow> error + heap \<times> pyval" where
  "Order_init_with B u h c args kwargs =
     (case bind_keywords [''self''] kwargs of
        Inl e \<Rightarrow> Inl e
      | Inr kwargs \<Rightarrow>
          (case new_instance B h c args kwargs of
             Inl e \<Rightarrow> Inl e
           | Inr (h1, self) \<Rightarrow>
               (case Order_init_conditions u h1 self of
                  Inl e \<Rightarrow> Inl e
                | Inr h2 \<Rightarrow>
                    (case Order_init_softDollarTier B u h2 self of
                       Inl e \<Rightarrow> Inl e
                     | Inr h3 \<Rightarrow> Inr (h3, self)))))"

text \<open>\<^verbatim>\<open>Order.__init__\<close> over the base initialiser of the module.\<close>

definition Order_init ::
  "ext \<Rightarrow> heap \<Rightarrow> cls \<Rightarrow> pyval list \<Rightarrow> fields \<Rightarrow> error + heap \<times> pyval" where
  "Order_init u h c args kwargs = Order_init_with (Object_init u) u h c args kwargs"

text \<open>\<^verbatim>\<open>Order.__eq__\<close>: \<^verbatim>\<open>self is other\<close>. An instance is identical to itself only.\<close>

definition Order_eq :: "pyval \<Rightarrow> pyval \<Rightarrow> bool" where
  "Order_eq self other = (self = other)"

text \<open>\<^verbatim>\<open>Order.__hash__\<close>: \<^verbatim>\<open>id(self)\<close>, the address of the instance.\<close>

definition Order_hash :: "addr \<Rightarrow> int" where
  "Order_hash self = int self"

text \<open>
  \<^verbatim>\<open>self == other\<close> for an instance \<open>self\<close>: the method of its class. \<^verbatim>\<open>Order\<close> overrides
  \<^verbatim>\<open>__eq__\<close> and its subclasses inherit the override; every other class of the module has
  the method of the base class. \<open>None\<close> when \<open>self\<close> is not an instance.
\<close>

definition instance_eq :: "heap \<Rightarrow> pyval \<Rightarrow> pyval \<Rightarrow> bool option" where
  "instance_eq h self other =
     (case self of
        PRef a \<Rightarrow>
          (case lookup h a of
             Some (Inst c fs) \<Rightarrow>
               Some (if is_Order c then Order_eq self other else Object_eq h self other)
           | _ \<Rightarrow> None)
      | _ \<Rightarrow> None)"

text \<open>
  A call \<^verbatim>\<open>f(k1=v1, ..., **kwargs)\<close>: a key of \<open>kwargs\<close> that repeats a keyword written
  in the call raises \<^verbatim>\<open>TypeError\<close> (multiple values for a keyword argument) before the
  callee runs.
\<close>

definition call_keywords :: "fields \<Rightarrow> fields \<Rightarrow> error + fields" where
  "call_keywords named kwargs =
     (if list_ex (\<lambda>k. k \<in> set (map fst named)) (map fst kwargs) then Inl TypeError
      else Inr (named @ kwargs))"

definition LimitOrder_init ::
  "ext \<Rightarrow> heap \<Rightarrow> pyval \<Rightarrow> pyval \<Rightarrow> pyval \<Rightarrow> fields \<Rightarrow> error + heap \<times> pyval" where
  "LimitOrder_init u h action totalQuantity lmtPrice kwargs =
     (case bind_keywords [''self'', ''action'', ''totalQuantity'', ''lmtPrice''] kwargs of
        Inl e \<Rightarrow> Inl e
      | Inr kwargs \<Rightarrow>
          (case call_keywords [(''orderType'', PStr ''LMT''), (''action'', action),
                     (''totalQuantity'', totalQuantity), (''lmtPrice'', lmtPrice)] kwargs of
             Inl e \<Rightarrow> Inl e
           | Inr kw \<Rightarrow> Order_init u h LimitOrder [] kw))"

definition MarketOrder_init ::
  "ext \<Rightarrow> heap \<Rightarrow> pyval \<Rightarrow> pyval \<Rightarrow> fields \<Rightarrow> error + heap \<times> pyval" where
  "MarketOrder_init u h action totalQuantity kwargs =
     (case bind_keywords [''self'', ''action'', ''totalQuantity''] kwargs of
        Inl e \<Rightarrow> Inl e
      | Inr kwargs \<Rightarrow>
          (case call_keywords [(''orderType'', PStr ''MKT''), (''action'', action),
                     (''totalQuantity'', totalQuantity)] kwargs of
             Inl e \<Rightarrow> Inl e
           | Inr kw \<Rightarrow> Order_init u h MarketOrder [] kw))"

definition StopOrder_init ::
  "ext \<Rightarrow> heap \<Rightarrow> pyval \<Rightarrow> pyval \<Rightarrow> pyval \<Rightarrow> fields \<Rightarrow> error + heap \<times> pyval" where
  "StopOrder_init u h action totalQuantity stopPrice kwargs =
     (case bind_keywords [''self'', ''action'', ''totalQuantity'', ''stopPrice''] kwargs of
        Inl e \<Rightarrow> Inl e
      | Inr kwargs \<Rightarrow>
          (case call_keywords [(''orderType'', PStr ''STP''), (''action'', action),
                     (''totalQuantity'', totalQuantity), (''auxPrice'', stopPrice)] kwargs of
             Inl e \<Rightarrow> Inl e
           | Inr kw \<Rightarrow> Order_init u h StopOrder [] kw))"

definition StopLimitOrder_init ::
  "ext \<Rightarrow> heap \<Rightarrow> pyval \<Rightarrow> pyval \<Rightarrow> pyval \<Rightarrow> pyval \<Rightarrow> fields \<Rightarrow> error + heap \<times> pyval" where
  "StopLimitOrder_init u h action totalQuantity lmtPrice stopPrice kwargs =
     (case bind_keywords
             [''self'', ''action'', ''totalQuantity'', ''lmtPrice'', ''stopPrice''] kwargs of
        Inl e \<Rightarrow> Inl e
      | Inr kwargs \<Rightarrow>
          (case call_keywords [(''orderType'', PStr ''STP LMT''), (''action'', action),
                     (''totalQuantity'', totalQuantity), (''lmtPrice'', lmtPrice),
                     (''auxPrice'', stopPrice)] kwargs of
             Inl e \<Rightarrow> Inl e
           | Inr kw \<Rightarrow> Order_init u h StopLimitOrder [] kw))"

section \<open>Trade\<close>

text \<open>
  The queries of a \<^verbatim>\<open>Trade\<close> only read attributes, so the records below hold the fields at
  their declared types (\<^verbatim>\<open>status: str\<close>, \<^verbatim>\<open>totalQuantity: float\<close>, ...); a field declared
  \<^verbatim>\<open>Optional\<close> with default \<^verbatim>\<open>None\<close> is an option, and reading an attribute of \<^verbatim>\<open>None\<close>
  raises \<^verbatim>\<open>AttributeError\<close>. Lists of objects of other modules hold references.
\<close>

text \<open>
  Modelled from the spec: \<^verbatim>\<open>Contract\<close> (module \<^verbatim>\<open>contract\<close>) and \<^verbatim>\<open>Fill\<close> with its
  execution record (module \<^verbatim>\<open>objects\<close>), which are not part of the sources at hand. The
  spec: a Fill binds a contract, an execution record (includes \<^verbatim>\<open>shares\<close>), and a commission
  report. The records have the fields that \<^verbatim>\<open>Trade.filled\<close> reads.
\<close>

record Contract =
  secType :: string

record 'f Execution =
  shares :: "'f"

record 'f Fill =
  contract :: Contract
  execution :: "'f Execution"

typedecl TradeLogEntry

record 'f OrderStatus =
  orderId :: int
  status :: string
  filled :: int
  remaining :: int
  avgFillPrice :: "'f"
  permId :: int
  parentId :: int
  lastFillPrice :: "'f"
  clientId :: int
  whyHeld :: string
  mktCapPrice :: "'f"
  lastLiquidity :: int

definition DoneStates :: "string set" where
  "DoneStates = {''Filled'', ''Cancelled'', ''ApiCancelled''}"

definition ActiveStates :: "string set" where
  "ActiveStates = {''PendingSubmit'', ''ApiPending'', ''PreSubmitted'', ''Submitted''}"

record 'f Order =
  orderId :: "int"
  clientId :: "int"
  permId :: "int"
  action :: "string"
  totalQuantity :: "'f"
  orderType :: "string"
  lmtPrice :: "'f"
  auxPrice :: "'f"
  tif :: "string"
  activeStartTime :: "string"
  activeStopTime :: "string"
  ocaGroup :: "string"
  ocaType :: "int"
  orderRef :: "string"
  transmit :: "bool"
  parentId :: "int"
  blockOrder :: "bool"
  sweepToFill :: "bool"
  displaySize :: "int"
  triggerMethod :: "int"
  outsideRth :: "bool"
  hidden :: "bool"
  goodAfterTime :: "string"
  goodTillDate :: "string"
  rule80A :: "string"
  allOrNone :: "bool"
  minQty :: "int"
  percentOffset :: "'f"
  overridePercentageConstraints :: "bool"
  trailStopPrice :: "'f"
  trailingPercent :: "'f"
  faGroup :: "string"
  faProfile :: "string"
  faMethod :: "string"
  faPercentage :: "string"
  designatedLocation :: "string"
  openClose :: "string"
  origin :: "int"
  shortSaleSlot :: "int"
  exemptCode :: "int"
  discretionaryAmt :: "int"
  eTradeOnly :: "bool"
  firmQuoteOnly :: "bool"
  nbboPriceCap :: "'f"
  optOutSmartRouting :: "bool"
  auctionStrategy :: "int"
  startingPrice :: "'f"
  stockRefPrice :: "'f"
  delta :: "'f"
  stockRangeLower :: "'f"
  stockRangeUpper :: "'f"
  randomizePrice :: "bool"
  randomizeSize :: "bool"
  volatility :: "'f"
  volatilityType :: "int"
  deltaNeutralOrderType :: "string"
  deltaNeutralAuxPrice :: "'f"
  deltaNeutralConId :: "int"
  deltaNeutralSettlingFirm :: "string"
  deltaNeutralClearingAccount :: "string"
  deltaNeutralClearingIntent :: "string"
  deltaNeutralOpenClose :: "string"
  deltaNeutralShortSale :: "bool"
  deltaNeutralShortSaleSlot :: "int"
  deltaNeutralDesignatedLocation :: "string"
  continuousUpdate :: "bool"
  referencePriceType :: "int"
  basisPoints :: "'f"
  basisPointsType :: "int"
  scaleInitLevelSize :: "int"
  scaleSubsLevelSize :: "int"
  scalePriceIncrement :: "'f"
  scalePriceAdjustValue :: "'f"
  scalePriceAdjustInterval :: "int"
  scaleProfitOffset :: "'f"
  scaleAutoReset :: "bool"
  scaleInitPosition :: "int"
  scaleInitFillQty :: "int"
  scaleRandomPercent :: "bool"
  scaleTable :: "string"
  hedgeType :: "string"
  hedgeParam :: "string"
  account :: "string"
  settlingFirm :: "string"
  clearingAccount :: "string"
  clearingIntent :: "string"
  algoStrategy :: "string"
  algoParams :: "pyval list option"
  smartComboRoutingParams :: "pyval list option"
  algoId :: "string"
  whatIf :: "bool"
  notHeld :: "bool"
  solicited :: "bool"
  modelCode :: "string"
  orderComboLegs :: "pyval list option"
  orderMiscOptions :: "pyval option"
  referenceContractId :: "int"
  peggedChangeAmount :: "'f"
  isPeggedChangeAmountDecrease :: "bool"
  referenceChangeAmount :: "'f"
  referenceExchangeId :: "string"
  adjustedOrderType :: "string"
  triggerPrice :: "'f"
  adjustedStopPrice :: "'f"
  adjustedStopLimitPrice :: "'f"
  adjustedTrailingAmount :: "'f"
  adjustableTrailingUnit :: "int"
  lmtPriceOffset :: "'f"
  conditions :: "pyval list option"
  conditionsCancelOrder :: "bool"
  conditionsIgnoreRth :: "bool"
  extOperator :: "string"
  softDollarTier :: "pyval option"
  cashQty :: "'f"
  mifid2DecisionMaker :: "string"
  mifid2DecisionAlgo :: "string"
  mifid2ExecutionTrader :: "string"
  mifid2ExecutionAlgo :: "string"
  dontUseAutoPriceForHedge :: "bool"
  isOmsContainer :: "bool"
  discretionaryUpToLimitPrice :: "bool"
  autoCancelDate :: "string"
  filledQuantity :: "'f"
  refFuturesConId :: "int"
  autoCancelParent :: "bool"
  shareholder :: "string"
  imbalanceOnly :: "bool"
  routeMarketableToBbo :: "bool"
  parentPermId :: "int"
  usePriceMgmtAlgo :: "bool"

text \<open>
  The declared defaults of \<^verbatim>\<open>Order\<close> at the declared types, the floats being the reals
  that the parameters give.
\<close>

definition Order_record :: "ext \<Rightarrow> real Order" where
  "Order_record u = \<lparr>
     orderId = 0,
     clientId = 0,
     permId = 0,
     action = [],
     totalQuantity = 0,
     orderType = [],
     lmtPrice = UNSET_DOUBLE u,
     auxPrice = UNSET_DOUBLE u,
     tif = [],
     activeStartTime = [],
     activeStopTime = [],
     ocaGroup = [],
     ocaType = 0,
     orderRef = [],
     transmit = True,
     parentId = 0,
     blockOrder = False,
     sweepToFill = False,
     displaySize = 0,
     triggerMethod = 0,
     outsideRth = False,
     hidden = False,
     goodAfterTime = [],
     goodTillDate = [],
     rule80A = [],
     allOrNone = False,
     minQty = UNSET_INTEGER u,
     percentOffset = UNSET_DOUBLE u,
     overridePercentageConstraints = False,
     trailStopPrice = UNSET_DOUBLE u,
     trailingPercent = UNSET_DOUBLE u,
     faGroup = [],
     faProfile = [],
     faMethod = [],
     faPercentage = [],
     designatedLocation = [],
     openClose = ''O'',
     origin = 0,
     shortSaleSlot = 0,
     exemptCode = (-1),
     discretionaryAmt = 0,
     eTradeOnly = True,
     firmQuoteOnly = True,
     nbboPriceCap = UNSET_DOUBLE u,
     optOutSmartRouting = False,
     auctionStrategy = 0,
     startingPrice = UNSET_DOUBLE u,
     stockRefPrice = UNSET_DOUBLE u,
     delta = UNSET_DOUBLE u,
     stockRangeLower = UNSET_DOUBLE u,
     stockRangeUpper = UNSET_DOUBLE u,
     randomizePrice = False,
     randomizeSize = False,
     volatility = UNSET_DOUBLE u,
     volatilityType = UNSET_INTEGER u,
     deltaNeutralOrderType = [],
     deltaNeutralAuxPrice = UNSET_DOUBLE u,
     deltaNeutralConId = 0,
     deltaNeutralSettlingFirm = [],
     deltaNeutralClearingAccount = [],
     deltaNeutralClearingIntent = [],
     deltaNeutralOpenClose = [],
     deltaNeutralShortSale = False,
     deltaNeutralShortSaleSlot = 0,
     deltaNeutralDesignatedLocation = [],
     continuousUpdate = False,
     referencePriceType = UNSET_INTEGER u,
     basisPoints = UNSET_DOUBLE u,
     basisPointsType = UNSET_INTEGER u,
     scaleInitLevelSize = UNSET_INTEGER u,
     scaleSubsLevelSize = UNSET_INTEGER u,
     scalePriceIncrement = UNSET_DOUBLE u,
     scalePriceAdjustValue = UNSET_DOUBLE u,
     scalePriceAdjustInterval = UNSET_INTEGER u,
     scaleProfitOffset = UNSET_DOUBLE u,
     scaleAutoReset = False,
     scaleInitPosition = UNSET_INTEGER u,
     scaleInitFillQty = UNSET_INTEGER u,
     scaleRandomPercent = False,
     scaleTable = [],
     hedgeType = [],
     hedgeParam = [],
     account = [],
     settlingFirm = [],
     clearingAccount = [],
     clearingIntent = [],
     algoStrategy = [],
     algoParams = None,
     smartComboRoutingParams = None,
     algoId = [],
     whatIf = False,
     notHeld = False,
     solicited = False,
     modelCode = [],
     orderComboLegs = None,
     orderMiscOptions = None,
     referenceContractId = 0,
     peggedChangeAmount = 0,
     isPeggedChangeAmountDecrease = False,
     referenceChangeAmount = 0,
     referenceExchangeId = [],
     adjustedOrderType = [],
     triggerPrice = UNSET_DOUBLE u,
     adjustedStopPrice = UNSET_DOUBLE u,
     adjustedStopLimitPrice = UNSET_DOUBLE u,
     adjustedTrailingAmount = UNSET_DOUBLE u,
     adjustableTrailingUnit = 0,
     lmtPriceOffset = UNSET_DOUBLE u,
     conditions = None,
     conditionsCancelOrder = False,
     conditionsIgnoreRth = False,
     extOperator = [],
     softDollarTier = None,
     cashQty = UNSET_DOUBLE u,
     mifid2DecisionMaker = [],
     mifid2DecisionAlgo = [],
     mifid2ExecutionTrader = [],
     mifid2ExecutionAlgo = [],
     dontUseAutoPriceForHedge = False,
     isOmsContainer = False,
     discretionaryUpToLimitPrice = False,
     autoCancelDate = [],
     filledQuantity = UNSET_DOUBLE u,
     refFuturesConId = 0,
     autoCancelParent = False,
     shareholder = [],
     imbalanceOnly = False,
     routeMarketableToBbo = False,
     parentPermId = 0,
     usePriceMgmtAlgo = False\<rparr>"

text \<open>
  The five declared fields of a \<^verbatim>\<open>Trade\<close>. Its seven event channels are objects of the
  external \<^verbatim>\<open>eventkit\<close> library that the queries do not touch.
\<close>

record 'f Trade =
  contract :: "Contract option"
  order :: "'f Order option"
  orderStatus :: "'f OrderStatus option"
  fills :: "'f Fill list option"
  log :: "TradeLogEntry list option"

definition Trade_isActive :: "'f Trade \<Rightarrow> error + bool" where
  "Trade_isActive self =
     (case orderStatus self of
        None \<Rightarrow> Inl AttributeError
      | Some os \<Rightarrow> Inr (status os \<in> ActiveStates))"

definition Trade_isDone :: "'f Trade \<Rightarrow> error + bool" where
  "Trade_isDone self =
     (case orderStatus self of
        None \<Rightarrow> Inl AttributeError
      | Some os \<Rightarrow> Inr (status os \<in> DoneStates))"

text \<open>
  Floats. \<^verbatim>\<open>execution.shares\<close> and \<^verbatim>\<open>totalQuantity\<close> are declared \<^verbatim>\<open>float\<close>, and
  \<^verbatim>\<open>filled()\<close> and \<^verbatim>\<open>remaining()\<close> add and subtract them in the float arithmetic of the
  platform, which rounds, overflows to an infinity and is not associative. The model does
  not fix that arithmetic: the type \<open>'f\<close> of the floats and the three operations that the
  two methods use (\<^verbatim>\<open>x + y\<close> and \<^verbatim>\<open>x - y\<close> on floats, and the conversion of an int that
  meets a float in an addition or a subtraction) are parameters, so that what is proved
  holds for the doubles of the platform.
\<close>

record 'f arith =
  float_add :: "'f \<Rightarrow> 'f \<Rightarrow> 'f"
  float_sub :: "'f \<Rightarrow> 'f \<Rightarrow> 'f"
  float_of_int :: "int \<Rightarrow> 'f"

text \<open>A number is an int or a float.\<close>

datatype 'f num = NInt int | NFloat 'f

text \<open>
  The builtin \<^verbatim>\<open>sum\<close> over floats: the items are added to the int \<^verbatim>\<open>0\<close> one after the
  other, from left to right. The sum of no item is the int \<^verbatim>\<open>0\<close>; the first addition
  \<^verbatim>\<open>0 + x\<close> converts \<^verbatim>\<open>0\<close> to a float, and every later addition is one of floats. (This is
  the loop of CPython up to version 3.11; later versions compensate the rounding errors of
  a sum of floats.)
\<close>

fun num_add_float :: "'f arith \<Rightarrow> 'f num \<Rightarrow> 'f \<Rightarrow> 'f num" where
  "num_add_float ar (NInt i) y = NFloat (float_add ar (float_of_int ar i) y)"
| "num_add_float ar (NFloat x) y = NFloat (float_add ar x y)"

definition py_sum :: "'f arith \<Rightarrow> 'f list \<Rightarrow> 'f num" where
  "py_sum ar xs = foldl (num_add_float ar) (NInt 0) xs"

text \<open>
  \<^verbatim>\<open>Trade.filled\<close>. The contract is read first; iterating over \<^verbatim>\<open>None\<close> raises
  \<^verbatim>\<open>TypeError\<close>, in the comprehension for a BAG contract and in the sum otherwise.
\<close>

definition Trade_filled :: "'f arith \<Rightarrow> 'f Trade \<Rightarrow> error + 'f num" where
  "Trade_filled ar self =
     (let fills = Trade.fills self in
      case Trade.contract self of
        None \<Rightarrow> Inl AttributeError
      | Some c \<Rightarrow>
          (case (if secType c = ''BAG''
                 then (case fills of
                         None \<Rightarrow> Inl TypeError
                       | Some fs \<Rightarrow> Inr (Some [f \<leftarrow> fs. secType (Fill.contract f) = ''BAG'']))
                 else Inr fills) of
             Inl e \<Rightarrow> Inl e
           | Inr fills' \<Rightarrow>
               (case fills' of
                  None \<Rightarrow> Inl TypeError
                | Some fs \<Rightarrow> Inr (py_sum ar (map (\<lambda>f. shares (execution f)) fs)))))"

text \<open>\<^verbatim>\<open>x - n\<close> for a float \<open>x\<close>: an int \<open>n\<close> is converted to a float first.\<close>

fun float_sub_num :: "'f arith \<Rightarrow> 'f \<Rightarrow> 'f num \<Rightarrow> 'f" where
  "float_sub_num ar x (NInt j) = float_sub ar x (float_of_int ar j)"
| "float_sub_num ar x (NFloat y) = float_sub ar x y"

text \<open>\<^verbatim>\<open>Trade.remaining\<close>: the order is read first, then \<^verbatim>\<open>filled()\<close> is called.\<close>

definition Trade_remaining :: "'f arith \<Rightarrow> 'f Trade \<Rightarrow> error + 'f" where
  "Trade_remaining ar self =
     (case Trade.order self of
        None \<Rightarrow> Inl AttributeError
      | Some ord \<Rightarrow>
          (case Trade_filled ar self of
             Inl e \<Rightarrow> Inl e
           | Inr f \<Rightarrow> Inr (float_sub_num ar (totalQuantity ord) f)))"

text \<open>
  The value of a number under a reading \<open>v\<close> of the floats as reals, and the property of a
  list of floats that every addition of its \<^verbatim>\<open>sum\<close>, starting from the float \<open>acc\<close>, is exact
  under \<open>v\<close>. They serve to state when a float sum is the sum of the mathematical values.
\<close>

fun num_val :: "('f \<Rightarrow> real) \<Rightarrow> 'f num \<Rightarrow> real" where
  "num_val v (NInt i) = of_int i"
| "num_val v (NFloat x) = v x"

fun exact_adds :: "'f arith \<Rightarrow> ('f \<Rightarrow> real) \<Rightarrow> 'f \<Rightarrow> 'f list \<Rightarrow> bool" where
  "exact_adds ar v acc [] = True"
| "exact_adds ar v acc (x # xs) =
     (v (float_add ar acc x) = v acc + v x \<and> exact_adds ar v (float_add ar acc x) xs)"

section \<open>Sample data\<close>

text \<open>
  An instance of the parameters and a few objects, for evaluating the model on concrete
  inputs. The sentinels are arbitrary distinct numbers, an instance is true unless its class
  says otherwise, and \<^verbatim>\<open>SoftDollarTier\<close> has three string fields.
\<close>

definition sample_ext :: ext where
  "sample_ext =
     \<lparr>UNSET_DOUBLE = 179769313486231570,
      UNSET_INTEGER = 2147483647,
      SoftDollarTier_defaults =
        [(''name'', PStr []), (''val'', PStr []), (''displayName'', PStr [])],
      instance_bool = (\<lambda>c fs. True)\<rparr>"

text \<open>
  An arithmetic without rounding on the reals, to run the queries of a trade on values
  where the arithmetic of doubles is exact (integers of small magnitude).
\<close>

definition exact_arith :: "real arith" where
  "exact_arith = \<lparr>float_add = (+), float_sub = (-), float_of_int = of_int\<rparr>"

definition sample_fill :: "string \<Rightarrow> real \<Rightarrow> real Fill" where
  "sample_fill t n = \<lparr>Fill.contract = \<lparr>secType = t\<rparr>, execution = \<lparr>shares = n\<rparr>\<rparr>"

definition sample_trade ::
  "string \<Rightarrow> real \<Rightarrow> string \<Rightarrow> real Fill list \<Rightarrow> real Trade" where
  "sample_trade t q s fs =
     \<lparr>contract = Some \<lparr>secType = t\<rparr>,
      order = Some ((Order_record sample_ext)\<lparr>totalQuantity := q\<rparr>),
      orderStatus = Some \<lparr>OrderStatus.orderId = 0, status = s, filled = 0, remaining = 0,
        avgFillPrice = 0, permId = 0, parentId = 0, lastFillPrice = 0, clientId = 0,
        whyHeld = [], mktCapPrice = 0, lastLiquidity = 0\<rparr>,
      fills = Some fs,
      log = Some []\<rparr>"

text \<open>Two limit orders with the same fields and two order statuses with the same fields.\<close>

definition sample_heap :: heap where
  "sample_heap =
     [Inst LimitOrder (Order_defaults sample_ext),
      Inst LimitOrder (Order_defaults sample_ext),
      Inst OrderStatus OrderStatus_defaults,
      Inst OrderStatus OrderStatus_defaults]"

section \<open>Lemmas on the store and on dictionaries\<close>

lemma lookup_append_old: "a < length h \<Longrightarrow> lookup (h @ xs) a = lookup h a"
  by (simp add: lookup_def nth_append)

lemma lookup_append_new: "lookup (h @ [c]) (length h) = Some c"
  by (simp add: lookup_def)

lemma lookup_update:
  "lookup (h[a := c]) b = (if b = a \<and> a < length h then Some c else lookup h b)"
  by (simp add: lookup_def)

lemma lookup_Some_less: "lookup h a = Some c \<Longrightarrow> a < length h"
  by (simp add: lookup_def split: if_splits)

lemma map_of_dict_set: "map_of (dict_set d k v) k' = (if k' = k then Some v else map_of d k')"
  by (induction d k v rule: dict_set.induct) auto

lemma map_of_dict_update:
  "map_of (dict_update d e) k =
     (case map_of (rev e) k of None \<Rightarrow> map_of d k | Some v \<Rightarrow> Some v)"
proof (induction d e rule: dict_update.induct)
  case (1 d)
  then show ?case by simp
next
  case (2 d k' v e)
  then show ?case
    by (auto simp: map_of_dict_set map_add_def split: option.splits)
qed

lemma keys_dict_set: "fst ` set (dict_set d k v) = insert k (fst ` set d)"
  by (induction d k v rule: dict_set.induct) auto

lemma keys_dict_update: "fst ` set (dict_update d e) = fst ` set d \<union> fst ` set e"
  by (induction d e rule: dict_update.induct) (simp_all add: keys_dict_set)

lemma getattr_Inst:
  "lookup h a = Some (Inst c fs) \<Longrightarrow>
   getattr h (PRef a) k = (case map_of fs k of None \<Rightarrow> Inl AttributeError | Some v \<Rightarrow> Inr v)"
  by (simp add: getattr_def)

lemma setattr_Inst:
  "lookup h a = Some (Inst c fs) \<Longrightarrow>
   setattr u h (PRef a) k v =
     (if k \<in> set (slots u c) then Inr (h[a := Inst c (dict_set fs k v)])
      else Inl AttributeError)"
  by (simp add: setattr_def)

section \<open>The condition classes\<close>

text \<open>
  Claim C2. \<^verbatim>\<open>OrderCondition.createClass\<close> is a lookup: the discriminants 1, 3, 4, 5, 6
  and 7 give the price, time, margin, execution, volume and percent-change condition
  classes, and every other discriminant, 2 among them, raises \<^verbatim>\<open>KeyError\<close>; no class is
  returned by default.
\<close>

theorem createClass_lookup:
  "createClass d =
     (if d = 1 then Inr PriceCondition
      else if d = 3 then Inr TimeCondition
      else if d = 4 then Inr MarginCondition
      else if d = 5 then Inr ExecutionCondition
      else if d = 6 then Inr VolumeCondition
      else if d = 7 then Inr PercentChangeCondition
      else Inl KeyError) \<and>
   createClass 2 = Inl KeyError"
  by (simp add: createClass_def)

text \<open>
  Claim C9. The class that \<^verbatim>\<open>createClass\<close> returns for a discriminant declares that
  discriminant as its default \<^verbatim>\<open>condType\<close>, and each of the six condition classes declares
  the default conjunction \<^verbatim>\<open>'a'\<close>.
\<close>

theorem createClass_default_condType:
  "(createClass d = Inr c \<longrightarrow>
      map_of (defaults u c) ''condType'' = Some (PInt d) \<and>
      map_of (defaults u c) ''conjunction'' = Some (PStr ''a'')) \<and>
   list_all (\<lambda>c. map_of (defaults u c) ''conjunction'' = Some (PStr ''a''))
     [PriceCondition, TimeCondition, MarginCondition, ExecutionCondition, VolumeCondition,
      PercentChangeCondition]"
  by (auto simp: createClass_def PriceCondition_defaults_def TimeCondition_defaults_def
      MarginCondition_defaults_def ExecutionCondition_defaults_def VolumeCondition_defaults_def
      PercentChangeCondition_defaults_def split: if_splits)

theorem createClass_default_condType_witness:
  "createClass 6 = Inr VolumeCondition \<and>
   map_of (defaults sample_ext VolumeCondition) ''condType'' = Some (PInt 6) \<and>
   map_of (defaults sample_ext VolumeCondition) ''conjunction'' = Some (PStr ''a'')"
  using createClass_default_condType [of 6 VolumeCondition sample_ext]
  by (simp add: createClass_def)

lemma conjunction_slot:
  "c \<in> {PriceCondition, TimeCondition, MarginCondition, ExecutionCondition, VolumeCondition,
         PercentChangeCondition}
   \<Longrightarrow> ''conjunction'' \<in> set (slots u c)"
  by (auto simp: slots_def PriceCondition_defaults_def TimeCondition_defaults_def
      MarginCondition_defaults_def ExecutionCondition_defaults_def VolumeCondition_defaults_def
      PercentChangeCondition_defaults_def)

text \<open>
  Claim C8. On an instance of a condition class, \<^verbatim>\<open>And()\<close> sets the conjunction to
  \<^verbatim>\<open>'a'\<close> and \<^verbatim>\<open>Or()\<close> sets it to \<^verbatim>\<open>'o'\<close>. Both mutate the instance in place (no cell is
  allocated, no other cell changes, the class stays), return the reference they were
  called on, and leave every other attribute of the instance as it was.
\<close>

theorem And_Or_in_place:
  assumes "lookup h a = Some (Inst c fs)"
    and "c \<in> {PriceCondition, TimeCondition, MarginCondition, ExecutionCondition,
               VolumeCondition, PercentChangeCondition}"
  shows "(\<exists>h'. And u h (PRef a) = Inr (h', PRef a) \<and>
            getattr h' (PRef a) ''conjunction'' = Inr (PStr ''a'') \<and>
            (\<forall>k. k \<noteq> ''conjunction'' \<longrightarrow> getattr h' (PRef a) k = getattr h (PRef a) k) \<and>
            (\<forall>b. b \<noteq> a \<longrightarrow> lookup h' b = lookup h b) \<and>
            length h' = length h \<and> (\<exists>fs'. lookup h' a = Some (Inst c fs'))) \<and>
         (\<exists>h'. Or u h (PRef a) = Inr (h', PRef a) \<and>
            getattr h' (PRef a) ''conjunction'' = Inr (PStr ''o'') \<and>
            (\<forall>k. k \<noteq> ''conjunction'' \<longrightarrow> getattr h' (PRef a) k = getattr h (PRef a) k) \<and>
            (\<forall>b. b \<noteq> a \<longrightarrow> lookup h' b = lookup h b) \<and>
            length h' = length h \<and> (\<exists>fs'. lookup h' a = Some (Inst c fs')))"
proof -
  let ?h = "\<lambda>v. h[a := Inst c (dict_set fs ''conjunction'' v)]"
  have lt: "a < length h"
    using assms(1) by (rule lookup_Some_less)
  have slot: "''conjunction'' \<in> set (slots u c)"
    using assms(2) by (rule conjunction_slot)
  have frame:
    "getattr (?h v) (PRef a) ''conjunction'' = Inr v \<and>
     (\<forall>k. k \<noteq> ''conjunction'' \<longrightarrow> getattr (?h v) (PRef a) k = getattr h (PRef a) k) \<and>
     (\<forall>b. b \<noteq> a \<longrightarrow> lookup (?h v) b = lookup h b) \<and>
     length (?h v) = length h \<and> (\<exists>fs'. lookup (?h v) a = Some (Inst c fs'))" for v
    using lt assms(1) by (simp add: getattr_def lookup_update map_of_dict_set)
  have "And u h (PRef a) = Inr (?h (PStr ''a''), PRef a)"
    using slot by (simp add: And_def setattr_Inst [OF assms(1)])
  moreover have "Or u h (PRef a) = Inr (?h (PStr ''o''), PRef a)"
    using slot by (simp add: Or_def setattr_Inst [OF assms(1)])
  ultimately show ?thesis
    using frame by simp
qed

theorem And_Or_in_place_witness:
  "lookup [Inst TimeCondition TimeCondition_defaults] 0 =
     Some (Inst TimeCondition TimeCondition_defaults) \<and>
   (\<exists>h'. Or sample_ext [Inst TimeCondition TimeCondition_defaults] (PRef 0) = Inr (h', PRef 0) \<and>
      getattr h' (PRef 0) ''conjunction'' = Inr (PStr ''o'') \<and>
      getattr h' (PRef 0) ''condType'' = Inr (PInt 3) \<and>
      length h' = 1)"
proof -
  have l: "lookup [Inst TimeCondition TimeCondition_defaults] 0 =
      Some (Inst TimeCondition TimeCondition_defaults)"
    by (simp add: lookup_def)
  have g: "getattr [Inst TimeCondition TimeCondition_defaults] (PRef 0) ''condType'' =
      Inr (PInt 3)"
    by (simp add: getattr_def lookup_def TimeCondition_defaults_def)
  from And_Or_in_place [OF l, of sample_ext] obtain h' where
    "Or sample_ext [Inst TimeCondition TimeCondition_defaults] (PRef 0) = Inr (h', PRef 0)"
    "getattr h' (PRef 0) ''conjunction'' = Inr (PStr ''o'')"
    "\<forall>k. k \<noteq> ''conjunction'' \<longrightarrow>
       getattr h' (PRef 0) k = getattr [Inst TimeCondition TimeCondition_defaults] (PRef 0) k"
    "length h' = length [Inst TimeCondition TimeCondition_defaults]"
    by auto
  then show ?thesis
    using l g by auto
qed

text \<open>
  The base class \<^verbatim>\<open>OrderCondition\<close> itself declares no field: on an instance of it the
  assignment in \<^verbatim>\<open>And()\<close> finds no slot.
\<close>

lemma And_base_class:
  "lookup h a = Some (Inst OrderCondition fs) \<Longrightarrow> And u h (PRef a) = Inl AttributeError"
  by (simp add: And_def setattr_Inst slots_def)

section \<open>Equality of orders\<close>

text \<open>
  Claim C7. Equality on an instance of \<^verbatim>\<open>Order\<close> or of one of its subclasses is identity:
  the instance equals the value it is compared with exactly when that value is the
  instance itself, whatever the fields hold, and two instances have the same hash exactly
  when they are the same instance. Two \<^verbatim>\<open>OrderStatus\<close> instances with identical field values
  are equal.
\<close>

theorem Order_identity_equality:
  "(lookup h a = Some (Inst c fs) \<and> is_Order c \<longrightarrow>
      instance_eq h (PRef a) other = Some (other = PRef a)) \<and>
   (Order_hash a = Order_hash b \<longleftrightarrow> a = b) \<and>
   (lookup h a = Some (Inst OrderStatus fs) \<and> lookup h b = Some (Inst OrderStatus fs) \<longrightarrow>
      instance_eq h (PRef a) (PRef b) = Some True)"
  by (auto simp: instance_eq_def Order_eq_def Order_hash_def Object_eq_def is_Order_def)

theorem Order_identity_equality_witness:
  "instance_eq sample_heap (PRef 0) (PRef 1) = Some False \<and>
   instance_eq sample_heap (PRef 0) (PRef 0) = Some True \<and>
   Order_hash 0 \<noteq> Order_hash 1 \<and>
   instance_eq sample_heap (PRef 2) (PRef 3) = Some True"
  using
    Order_identity_equality [where h = sample_heap and a = 0 and c = LimitOrder
      and fs = "Order_defaults sample_ext" and other = "PRef 1" and b = 1]
    Order_identity_equality [where h = sample_heap and a = 0 and c = LimitOrder
      and fs = "Order_defaults sample_ext" and other = "PRef 0" and b = 1]
    Order_identity_equality [where h = sample_heap and a = 2 and c = OrderStatus
      and fs = OrderStatus_defaults and other = "PRef 3" and b = 3]
  by (simp add: sample_heap_def lookup_def is_Order_def)

section \<open>Construction of an order\<close>

lemma bind_keywords_Inr:
  "bind_keywords ps kw = Inr kw' \<Longrightarrow> kw' = kw \<and> fst ` set kw \<inter> set ps = {}"
  by (auto simp: bind_keywords_def list_ex_iff split: if_splits)

lemma bind_keywords_Inl: "bind_keywords ps kw = Inl e \<Longrightarrow> e = TypeError"
  by (auto simp: bind_keywords_def split: if_splits)

lemma bind_keywords_disjoint:
  "fst ` set kw \<inter> set ps = {} \<Longrightarrow> bind_keywords ps kw = Inr kw"
  by (auto simp: bind_keywords_def list_ex_iff)

lemma new_instance_Inr:
  "new_instance B h c args kwargs = Inr (h1, self) \<Longrightarrow>
   \<exists>fs. B c args kwargs = Inr fs \<and> h1 = h @ [Inst c fs] \<and> self = PRef (length h)"
  by (auto simp: new_instance_def alloc_def split: sum.splits)

lemma truthy_PNone: "\<not> truthy u h PNone"
  by (simp add: truthy_def)

lemma truthy_in_store:
  "in_store h v \<Longrightarrow> \<forall>a<length h. lookup h' a = lookup h a \<Longrightarrow> truthy u h' v = truthy u h v"
  by (cases v) (auto simp: truthy_def in_store_def)

lemma Order_init_conditions_Inr:
  assumes "lookup h s = Some (Inst c fs)"
    and "Order_init_conditions u h (PRef s) = Inr h2"
  shows "\<exists>v. map_of fs ''conditions'' = Some v \<and>
           (if truthy u h v then h2 = h
            else h2 = (h @ [ListObj []])[s := Inst c (dict_set fs ''conditions'' (PRef (length h)))])"
proof -
  have lt: "s < length h" using assms(1) by (rule lookup_Some_less)
  have l': "lookup (h @ [ListObj []]) s = Some (Inst c fs)"
    using assms(1) lt by (simp add: lookup_append_old)
  show ?thesis
    using assms(2)
    by (auto simp: Order_init_conditions_def getattr_Inst [OF assms(1)] alloc_def
        setattr_Inst [OF l'] split: option.splits if_splits)
qed

lemma Order_init_softDollarTier_Inr:
  assumes "lookup h s = Some (Inst c fs)"
    and "Order_init_softDollarTier B u h (PRef s) = Inr h3"
  shows "\<exists>w. map_of fs ''softDollarTier'' = Some w \<and>
           (if truthy u h w then h3 = h
            else \<exists>dfl. B SoftDollarTier [] [] = Inr dfl \<and>
              h3 = (h @ [Inst SoftDollarTier dfl])
                     [s := Inst c (dict_set fs ''softDollarTier'' (PRef (length h)))])"
proof -
  have lt: "s < length h" using assms(1) by (rule lookup_Some_less)
  have l': "lookup (h @ [x]) s = Some (Inst c fs)" for x
    using assms(1) lt by (simp add: lookup_append_old)
  show ?thesis
    using assms(2)
    by (auto simp: Order_init_softDollarTier_def getattr_Inst [OF assms(1)] alloc_def
        new_instance_def setattr_Inst [OF l'] split: option.splits if_splits sum.splits)
qed

lemma Order_init_with_steps:
  assumes "Order_init_with B u h c args kwargs = Inr (h', self)"
  shows "\<exists>fs h2. B c args kwargs = Inr fs \<and> self = PRef (length h) \<and>
           Order_init_conditions u (h @ [Inst c fs]) (PRef (length h)) = Inr h2 \<and>
           Order_init_softDollarTier B u h2 (PRef (length h)) = Inr h'"
  using assms
  by (auto simp: Order_init_with_def split: sum.splits
      dest!: new_instance_Inr bind_keywords_Inr)

lemma Order_init_with_Inr:
  assumes "Order_init_with B u h c args kwargs = Inr (h', self)"
  shows "\<exists>fs v w fs' cv sv.
     B c args kwargs = Inr fs \<and> self = PRef (length h) \<and>
     map_of fs ''conditions'' = Some v \<and> map_of fs ''softDollarTier'' = Some w \<and>
     lookup h' (length h) = Some (Inst c fs') \<and>
     (\<forall>k. k \<noteq> ''conditions'' \<and> k \<noteq> ''softDollarTier'' \<longrightarrow> map_of fs' k = map_of fs k) \<and>
     (\<forall>a<length h. lookup h' a = lookup h a) \<and>
     map_of fs' ''conditions'' = Some cv \<and> cv \<noteq> PNone \<and>
     map_of fs' ''softDollarTier'' = Some sv \<and> sv \<noteq> PNone \<and>
     (in_store h v \<longrightarrow>
        (if truthy u h v then cv = v
         else cv = PRef (length h + 1) \<and> lookup h' (length h + 1) = Some (ListObj []))) \<and>
     (in_store h w \<longrightarrow>
        (if truthy u h w then sv = w
         else \<exists>t dfl. sv = PRef t \<and> length h < t \<and> (in_store h v \<longrightarrow> cv \<noteq> sv) \<and>
                B SoftDollarTier [] [] = Inr dfl \<and> lookup h' t = Some (Inst SoftDollarTier dfl)))"
proof -
  let ?s = "length h"
  from Order_init_with_steps [OF assms] obtain fs h2 where
    B: "B c args kwargs = Inr fs" and self: "self = PRef ?s" and
    s1: "Order_init_conditions u (h @ [Inst c fs]) (PRef ?s) = Inr h2" and
    s2: "Order_init_softDollarTier B u h2 (PRef ?s) = Inr h'"
    by blast
  let ?h1 = "h @ [Inst c fs]"
  have l1: "lookup ?h1 ?s = Some (Inst c fs)"
    by (rule lookup_append_new)
  from Order_init_conditions_Inr [OF l1 s1] obtain v where
    v: "map_of fs ''conditions'' = Some v" and
    h2: "if truthy u ?h1 v then h2 = ?h1
         else h2 = (?h1 @ [ListObj []])[?s := Inst c (dict_set fs ''conditions'' (PRef (length ?h1)))]"
    by blast
  define fs2 where "fs2 = (if truthy u ?h1 v then fs else dict_set fs ''conditions'' (PRef (?s + 1)))"
  define cv where "cv = (if truthy u ?h1 v then v else PRef (?s + 1))"
  have l2: "lookup h2 ?s = Some (Inst c fs2)"
    using h2 by (auto simp: fs2_def lookup_def nth_append split: if_splits)
  have old2: "\<forall>a<?s. lookup h2 a = lookup h a"
    using h2 by (auto simp: lookup_def nth_append split: if_splits)
  have len2: "length h2 = (if truthy u ?h1 v then ?s + 1 else ?s + 2)"
    using h2 by (auto split: if_splits)
  have list2: "\<not> truthy u ?h1 v \<Longrightarrow> lookup h2 (?s + 1) = Some (ListObj [])"
    using h2 by (auto simp: lookup_def nth_append split: if_splits)
  have cv2: "map_of fs2 ''conditions'' = Some cv"
    using v by (simp add: fs2_def cv_def map_of_dict_set)
  have cvN: "cv \<noteq> PNone"
    by (auto simp: cv_def truthy_PNone)
  have other2: "k \<noteq> ''conditions'' \<Longrightarrow> map_of fs2 k = map_of fs k" for k
    by (simp add: fs2_def map_of_dict_set)
  from Order_init_softDollarTier_Inr [OF l2 s2] obtain w where
    w2: "map_of fs2 ''softDollarTier'' = Some w" and
    h3: "if truthy u h2 w then h' = h2
         else \<exists>dfl. B SoftDollarTier [] [] = Inr dfl \<and>
           h' = (h2 @ [Inst SoftDollarTier dfl])
                  [?s := Inst c (dict_set fs2 ''softDollarTier'' (PRef (length h2)))]"
    by blast
  have w: "map_of fs ''softDollarTier'' = Some w"
    using w2 other2 [of "''softDollarTier''"] by simp
  define fs3 where
    "fs3 = (if truthy u h2 w then fs2 else dict_set fs2 ''softDollarTier'' (PRef (length h2)))"
  define sv where "sv = (if truthy u h2 w then w else PRef (length h2))"
  have lt2: "?s < length h2"
    using len2 by simp
  have l3: "lookup h' ?s = Some (Inst c fs3)"
    using h3 l2 lt2 by (auto simp: fs3_def lookup_def nth_append split: if_splits)
  have old3: "\<forall>a<?s. lookup h' a = lookup h a"
    using h3 old2 lt2 by (auto simp: lookup_def nth_append split: if_splits)
  have list3: "\<not> truthy u ?h1 v \<Longrightarrow> lookup h' (?s + 1) = Some (ListObj [])"
    using h3 list2 len2 by (auto simp: lookup_def nth_append split: if_splits)
  have cv3: "map_of fs3 ''conditions'' = Some cv"
    using cv2 by (simp add: fs3_def map_of_dict_set)
  have sv3: "map_of fs3 ''softDollarTier'' = Some sv"
    using w2 by (simp add: fs3_def sv_def map_of_dict_set)
  have svN: "sv \<noteq> PNone"
    by (auto simp: sv_def truthy_PNone)
  have other3: "k \<noteq> ''conditions'' \<and> k \<noteq> ''softDollarTier'' \<longrightarrow> map_of fs3 k = map_of fs k" for k
    using other2 [of k] by (simp add: fs3_def map_of_dict_set)
  have old1: "\<forall>a<?s. lookup ?h1 a = lookup h a"
    by (simp add: lookup_append_old)
  have tv: "in_store h v \<Longrightarrow> truthy u ?h1 v = truthy u h v"
    using old1 by (rule truthy_in_store [rotated])
  have tw: "in_store h w \<Longrightarrow> truthy u h2 w = truthy u h w"
    using old2 by (rule truthy_in_store [rotated])
  have condv: "in_store h v \<longrightarrow>
        (if truthy u h v then cv = v
         else cv = PRef (?s + 1) \<and> lookup h' (?s + 1) = Some (ListObj []))"
    using tv list3 by (auto simp: cv_def)
  have neq: "\<not> truthy u h2 w \<Longrightarrow> in_store h v \<Longrightarrow> cv \<noteq> sv"
    using len2 by (auto simp: cv_def sv_def in_store_def)
  have condw: "in_store h w \<longrightarrow>
        (if truthy u h w then sv = w
         else \<exists>t dfl. sv = PRef t \<and> ?s < t \<and> (in_store h v \<longrightarrow> cv \<noteq> sv) \<and>
                B SoftDollarTier [] [] = Inr dfl \<and> lookup h' t = Some (Inst SoftDollarTier dfl))"
  proof (intro impI)
    assume iw: "in_store h w"
    show "if truthy u h w then sv = w
         else \<exists>t dfl. sv = PRef t \<and> ?s < t \<and> (in_store h v \<longrightarrow> cv \<noteq> sv) \<and>
                B SoftDollarTier [] [] = Inr dfl \<and> lookup h' t = Some (Inst SoftDollarTier dfl)"
    proof (cases "truthy u h w")
      case True
      then show ?thesis using tw [OF iw] by (simp add: sv_def)
    next
      case False
      then have nt: "\<not> truthy u h2 w" using tw [OF iw] by simp
      with h3 obtain dfl where d: "B SoftDollarTier [] [] = Inr dfl"
        and h': "h' = (h2 @ [Inst SoftDollarTier dfl])
                  [?s := Inst c (dict_set fs2 ''softDollarTier'' (PRef (length h2)))]"
        by auto
      have "lookup h' (length h2) = Some (Inst SoftDollarTier dfl)"
        using lt2 by (simp add: h' lookup_def nth_append)
      then show ?thesis
        using False nt d lt2 neq by (auto simp: sv_def)
    qed
  qed
  have other3': "\<forall>k. k \<noteq> ''conditions'' \<and> k \<noteq> ''softDollarTier'' \<longrightarrow> map_of fs3 k = map_of fs k"
    using other3 by blast
  show ?thesis
  proof (intro exI conjI)
    show "B c args kwargs = Inr fs" by (rule B)
    show "self = PRef ?s" by (rule self)
    show "map_of fs ''conditions'' = Some v" by (rule v)
    show "map_of fs ''softDollarTier'' = Some w" by (rule w)
    show "lookup h' ?s = Some (Inst c fs3)" by (rule l3)
    show "\<forall>k. k \<noteq> ''conditions'' \<and> k \<noteq> ''softDollarTier'' \<longrightarrow> map_of fs3 k = map_of fs k"
      by (rule other3')
    show "\<forall>a<?s. lookup h' a = lookup h a" by (rule old3)
    show "map_of fs3 ''conditions'' = Some cv" by (rule cv3)
    show "cv \<noteq> PNone" by (rule cvN)
    show "map_of fs3 ''softDollarTier'' = Some sv" by (rule sv3)
    show "sv \<noteq> PNone" by (rule svN)
    show "in_store h v \<longrightarrow>
        (if truthy u h v then cv = v
         else cv = PRef (?s + 1) \<and> lookup h' (?s + 1) = Some (ListObj []))"
      by (rule condv)
    show "in_store h w \<longrightarrow>
        (if truthy u h w then sv = w
         else \<exists>t dfl. sv = PRef t \<and> ?s < t \<and> (in_store h v \<longrightarrow> cv \<noteq> sv) \<and>
                B SoftDollarTier [] [] = Inr dfl \<and> lookup h' t = Some (Inst SoftDollarTier dfl))"
      by (rule condw)
  qed
qed

lemmas table_eval =
  map_of.simps fun_upd_apply fst_conv snd_conv list.inject char.inject simp_thms
  if_False if_True

lemma Order_defaults_lookup:
  "map_of (Order_defaults u) ''action'' = Some (PStr [])"
  "map_of (Order_defaults u) ''totalQuantity'' = Some (PFloat 0)"
  "map_of (Order_defaults u) ''orderType'' = Some (PStr [])"
  "map_of (Order_defaults u) ''lmtPrice'' = Some (PFloat (UNSET_DOUBLE u))"
  "map_of (Order_defaults u) ''auxPrice'' = Some (PFloat (UNSET_DOUBLE u))"
  "map_of (Order_defaults u) ''conditions'' = Some PNone"
  "map_of (Order_defaults u) ''softDollarTier'' = Some PNone"
  by (simp_all only: Order_defaults_def table_eval)


text \<open>\<^verbatim>\<open>self\<close> and \<^verbatim>\<open>stopPrice\<close> name parameters, and no field of an order.\<close>

lemma Order_defaults_no_lookup:
  "map_of (Order_defaults u) ''self'' = None"
  "map_of (Order_defaults u) ''stopPrice'' = None"
  by (simp_all only: Order_defaults_def table_eval)

lemma map_of_Some_key: "map_of d k = Some v \<Longrightarrow> k \<in> fst ` set d"
  by (metis map_of_SomeD fst_conv image_eqI)

lemma Order_defaults_keys:
  "''action'' \<in> fst ` set (Order_defaults u)"
  "''totalQuantity'' \<in> fst ` set (Order_defaults u)"
  "''orderType'' \<in> fst ` set (Order_defaults u)"
  "''lmtPrice'' \<in> fst ` set (Order_defaults u)"
  "''auxPrice'' \<in> fst ` set (Order_defaults u)"
  "''conditions'' \<in> fst ` set (Order_defaults u)"
  "''softDollarTier'' \<in> fst ` set (Order_defaults u)"
  by (rule map_of_Some_key, rule Order_defaults_lookup)+

lemma Order_defaults_no_key:
  "''self'' \<notin> fst ` set (Order_defaults u)"
  "''stopPrice'' \<notin> fst ` set (Order_defaults u)"
  using Order_defaults_no_lookup [of u] by (simp_all add: map_of_eq_None_iff)

lemma is_Order_defaults: "is_Order c \<Longrightarrow> defaults u c = Order_defaults u"
  by (auto simp: is_Order_def)

lemma Order_slots:
  "is_Order c \<Longrightarrow> ''conditions'' \<in> set (slots u c) \<and> ''softDollarTier'' \<in> set (slots u c)"
  by (simp add: slots_def is_Order_defaults Order_defaults_keys)

lemma Object_init_kwargs:
  assumes "fst ` set kwargs \<subseteq> set (slots u c)"
  shows "Object_init u c [] kwargs = Inr (dict_update (defaults u c) kwargs)"
proof -
  have "fst ` set (dict_update (defaults u c) kwargs) \<subseteq> set (slots u c)"
    using assms by (simp add: keys_dict_update slots_def)
  then have "list_all (\<lambda>k. k \<in> set (slots u c)) (map fst (dict_update (defaults u c) kwargs))"
    by (auto simp: list_all_iff)
  then show ?thesis
    by (simp add: Object_init_def Let_def)
qed

lemma Object_init_Inr:
  assumes "Object_init u c [] kwargs = Inr fs"
  shows "fs = dict_update (defaults u c) kwargs"
  using assms by (simp add: Object_init_def Let_def split: if_splits)

lemma map_of_dict_update_named:
  assumes "k \<notin> fst ` set kw"
  shows "map_of (dict_update d (named @ kw)) k =
           (case map_of (rev named) k of None \<Rightarrow> map_of d k | Some x \<Rightarrow> Some x)"
proof -
  have "map_of (rev kw) k = None"
    using assms by (simp add: map_of_eq_None_iff)
  then show ?thesis
    by (simp add: map_of_dict_update map_add_def)
qed

lemma call_keywords_Inr:
  "call_keywords named kw = Inr kws \<Longrightarrow>
   kws = named @ kw \<and> fst ` set kw \<inter> fst ` set named = {}"
  by (auto simp: call_keywords_def list_ex_iff split: if_splits)

lemma call_keywords_disjoint:
  "fst ` set kw \<inter> fst ` set named = {} \<Longrightarrow> call_keywords named kw = Inr (named @ kw)"
  by (auto simp: call_keywords_def list_ex_iff)

lemma Order_init_attr:
  assumes "Order_init u h c [] kws = Inr (h', self)"
    and "k \<noteq> ''conditions''" and "k \<noteq> ''softDollarTier''"
  shows "self = PRef (length h) \<and> (\<exists>fs. lookup h' (length h) = Some (Inst c fs)) \<and>
         getattr h' self k =
           (case map_of (dict_update (defaults u c) kws) k of
              None \<Rightarrow> Inl AttributeError | Some x \<Rightarrow> Inr x)"
proof -
  from Order_init_with_Inr [OF assms(1) [unfolded Order_init_def]] obtain fs fs' where
    B: "Object_init u c [] kws = Inr fs" and self: "self = PRef (length h)" and
    l: "lookup h' (length h) = Some (Inst c fs')" and
    other: "\<forall>k. k \<noteq> ''conditions'' \<and> k \<noteq> ''softDollarTier'' \<longrightarrow> map_of fs' k = map_of fs k"
    by blast
  have fs: "fs = dict_update (defaults u c) kws"
    using B by (rule Object_init_Inr)
  have "map_of fs' k = map_of fs k"
    using other assms(2,3) by simp
  then show ?thesis
    using self l fs by (simp add: getattr_Inst [OF l])
qed

lemma Order_init_conditions_returns:
  assumes "lookup h s = Some (Inst c fs)" and "map_of fs ''conditions'' = Some v"
    and "''conditions'' \<in> set (slots u c)"
  shows "\<exists>h2 fs2. Order_init_conditions u h (PRef s) = Inr h2 \<and>
           lookup h2 s = Some (Inst c fs2) \<and>
           map_of fs2 ''softDollarTier'' = map_of fs ''softDollarTier''"
proof -
  have lt: "s < length h" using assms(1) by (rule lookup_Some_less)
  have l': "lookup (h @ [ListObj []]) s = Some (Inst c fs)"
    using assms(1) lt by (simp add: lookup_append_old)
  show ?thesis
  proof (cases "truthy u h v")
    case True
    then show ?thesis
      using assms(1,2) by (simp add: Order_init_conditions_def getattr_Inst [OF assms(1)])
  next
    case False
    then have "Order_init_conditions u h (PRef s) =
        Inr ((h @ [ListObj []])[s := Inst c (dict_set fs ''conditions'' (PRef (length h)))])"
      using assms(2,3)
      by (simp add: Order_init_conditions_def getattr_Inst [OF assms(1)] alloc_def
          setattr_Inst [OF l'])
    moreover have "lookup ((h @ [ListObj []])[s := Inst c (dict_set fs ''conditions'' (PRef (length h)))]) s
        = Some (Inst c (dict_set fs ''conditions'' (PRef (length h))))"
      using lt by (simp add: lookup_def)
    ultimately show ?thesis
      by (simp add: map_of_dict_set)
  qed
qed

lemma Order_init_softDollarTier_returns:
  assumes "lookup h s = Some (Inst c fs)" and "map_of fs ''softDollarTier'' = Some w"
    and "''softDollarTier'' \<in> set (slots u c)" and "B SoftDollarTier [] [] = Inr dfl"
  shows "\<exists>h3. Order_init_softDollarTier B u h (PRef s) = Inr h3"
proof -
  have lt: "s < length h" using assms(1) by (rule lookup_Some_less)
  have l': "lookup (h @ [Inst SoftDollarTier dfl]) s = Some (Inst c fs)"
    using assms(1) lt by (simp add: lookup_append_old)
  show ?thesis
    using assms(2,3,4)
    by (simp add: Order_init_softDollarTier_def getattr_Inst [OF assms(1)] alloc_def
        new_instance_def setattr_Inst [OF l'])
qed

lemma Order_init_with_returns:
  assumes "B c args kwargs = Inr fs" and "map_of fs ''conditions'' = Some v"
    and "map_of fs ''softDollarTier'' = Some w" and "is_Order c"
    and "B SoftDollarTier [] [] = Inr dfl" and "''self'' \<notin> fst ` set kwargs"
  shows "\<exists>h'. Order_init_with B u h c args kwargs = Inr (h', PRef (length h))"
proof -
  have ni: "new_instance B h c args kwargs = Inr (h @ [Inst c fs], PRef (length h))"
    using assms(1) by (simp add: new_instance_def alloc_def)
  have l1: "lookup (h @ [Inst c fs]) (length h) = Some (Inst c fs)"
    by (rule lookup_append_new)
  have sl: "''conditions'' \<in> set (slots u c)" "''softDollarTier'' \<in> set (slots u c)"
    using Order_slots [OF assms(4)] by simp_all
  from Order_init_conditions_returns [OF l1 assms(2) sl(1)] obtain h2 fs2 where
    c: "Order_init_conditions u (h @ [Inst c fs]) (PRef (length h)) = Inr h2" and
    l2: "lookup h2 (length h) = Some (Inst c fs2)" and
    w2: "map_of fs2 ''softDollarTier'' = map_of fs ''softDollarTier''"
    by blast
  have w2': "map_of fs2 ''softDollarTier'' = Some w"
    using w2 assms(3) by simp
  from Order_init_softDollarTier_returns [where B = B, OF l2 w2' sl(2) assms(5)] obtain h3 where
    "Order_init_softDollarTier B u h2 (PRef (length h)) = Inr h3"
    by blast
  moreover have "bind_keywords [''self''] kwargs = Inr kwargs"
    using assms(6) by (simp add: bind_keywords_disjoint)
  ultimately show ?thesis
    using ni c by (simp add: Order_init_with_def)
qed

lemma Object_init_SoftDollarTier:
  "Object_init u SoftDollarTier [] [] = Inr (SoftDollarTier_defaults u)"
  using Object_init_kwargs [of "[]" u SoftDollarTier] by simp

text \<open>Construction with keyword arguments that name fields of the order returns.\<close>

lemma Order_init_returns:
  assumes "is_Order c" and "fst ` set kws \<subseteq> fst ` set (Order_defaults u)"
  shows "\<exists>h'. Order_init u h c [] kws = Inr (h', PRef (length h))"
proof -
  have d: "defaults u c = Order_defaults u"
    using assms(1) by (rule is_Order_defaults)
  have sub: "fst ` set kws \<subseteq> set (slots u c)"
    using assms(2) by (simp add: slots_def d)
  have B: "Object_init u c [] kws = Inr (dict_update (Order_defaults u) kws)"
    using Object_init_kwargs [OF sub] by (simp add: d)
  have k: "k \<in> fst ` set (Order_defaults u) \<Longrightarrow>
      \<exists>v. map_of (dict_update (Order_defaults u) kws) k = Some v" for k
  proof -
    assume "k \<in> fst ` set (Order_defaults u)"
    then have "k \<in> fst ` set (dict_update (Order_defaults u) kws)"
      by (simp add: keys_dict_update)
    then show ?thesis
      by (metis map_of_eq_None_iff not_Some_eq)
  qed
  obtain v w where v: "map_of (dict_update (Order_defaults u) kws) ''conditions'' = Some v"
    and w: "map_of (dict_update (Order_defaults u) kws) ''softDollarTier'' = Some w"
    using k [OF Order_defaults_keys(6)] k [OF Order_defaults_keys(7)] by blast
  have s: "''self'' \<notin> fst ` set kws"
    using assms(2) Order_defaults_no_key(1) [of u] by auto
  show ?thesis
    unfolding Order_init_def
    by (rule Order_init_with_returns [where B = "Object_init u",
          OF B v w assms(1) Object_init_SoftDollarTier s])
qed

text \<open>
  Claim C5. \<^verbatim>\<open>Order.__init__\<close> runs the base initialisation first and then the two fix-ups.
  Whenever the base initialisation has set the fields of a new order (and can build a
  \<^verbatim>\<open>SoftDollarTier\<close> without arguments, and no keyword argument is named \<^verbatim>\<open>self\<close>), the
  construction returns. Whenever the construction
  returns, the fields \<^verbatim>\<open>conditions\<close> and \<^verbatim>\<open>softDollarTier\<close> of the new order are not
  \<^verbatim>\<open>None\<close>: a truthy value set by the base initialisation is kept, and otherwise
  \<^verbatim>\<open>conditions\<close> is a newly allocated empty list and \<^verbatim>\<open>softDollarTier\<close> a newly allocated
  \<^verbatim>\<open>SoftDollarTier\<close> instance built without arguments, distinct from the list.
\<close>

theorem Order_init_never_null:
  "(B c args kwargs = Inr fs0 \<and> map_of fs0 ''conditions'' = Some v0 \<and>
    map_of fs0 ''softDollarTier'' = Some w0 \<and> is_Order c \<and>
    B SoftDollarTier [] [] = Inr dfl0 \<and> ''self'' \<notin> fst ` set kwargs \<longrightarrow>
      (\<exists>h1. Order_init_with B u h c args kwargs = Inr (h1, PRef (length h)))) \<and>
   (Order_init_with B u h c args kwargs = Inr (h', self) \<longrightarrow>
      (\<exists>fs v w cv sv.
         B c args kwargs = Inr fs \<and> self = PRef (length h) \<and>
         map_of fs ''conditions'' = Some v \<and> map_of fs ''softDollarTier'' = Some w \<and>
         getattr h' self ''conditions'' = Inr cv \<and> cv \<noteq> PNone \<and>
         getattr h' self ''softDollarTier'' = Inr sv \<and> sv \<noteq> PNone \<and>
         (\<forall>a<length h. lookup h' a = lookup h a) \<and>
         (in_store h v \<longrightarrow>
            (if truthy u h v then cv = v
             else cv = PRef (length h + 1) \<and>
                  lookup h' (length h + 1) = Some (ListObj []))) \<and>
         (in_store h w \<longrightarrow>
            (if truthy u h w then sv = w
             else \<exists>t dfl. sv = PRef t \<and> length h < t \<and> (in_store h v \<longrightarrow> cv \<noteq> sv) \<and>
                    B SoftDollarTier [] [] = Inr dfl \<and>
                    lookup h' t = Some (Inst SoftDollarTier dfl)))))"
proof (intro conjI impI)
  assume "B c args kwargs = Inr fs0 \<and> map_of fs0 ''conditions'' = Some v0 \<and>
    map_of fs0 ''softDollarTier'' = Some w0 \<and> is_Order c \<and>
    B SoftDollarTier [] [] = Inr dfl0 \<and> ''self'' \<notin> fst ` set kwargs"
  then have a: "B c args kwargs = Inr fs0" "map_of fs0 ''conditions'' = Some v0"
    "map_of fs0 ''softDollarTier'' = Some w0" "is_Order c" "B SoftDollarTier [] [] = Inr dfl0"
    "''self'' \<notin> fst ` set kwargs"
    by simp_all
  show "\<exists>h1. Order_init_with B u h c args kwargs = Inr (h1, PRef (length h))"
    by (rule Order_init_with_returns [where B = B, OF a])
next
  assume r: "Order_init_with B u h c args kwargs = Inr (h', self)"
  from Order_init_with_Inr [OF r] obtain fs v w fs' cv sv where
    B: "B c args kwargs = Inr fs" and self: "self = PRef (length h)" and
    v: "map_of fs ''conditions'' = Some v" and w: "map_of fs ''softDollarTier'' = Some w" and
    l: "lookup h' (length h) = Some (Inst c fs')" and
    old: "\<forall>a<length h. lookup h' a = lookup h a" and
    cv: "map_of fs' ''conditions'' = Some cv" "cv \<noteq> PNone" and
    sv: "map_of fs' ''softDollarTier'' = Some sv" "sv \<noteq> PNone" and
    cf: "in_store h v \<longrightarrow>
        (if truthy u h v then cv = v
         else cv = PRef (length h + 1) \<and> lookup h' (length h + 1) = Some (ListObj []))" and
    sf: "in_store h w \<longrightarrow>
        (if truthy u h w then sv = w
         else \<exists>t dfl. sv = PRef t \<and> length h < t \<and> (in_store h v \<longrightarrow> cv \<noteq> sv) \<and>
                B SoftDollarTier [] [] = Inr dfl \<and> lookup h' t = Some (Inst SoftDollarTier dfl))"
    by (elim exE conjE) (rule that, assumption+)
  have gc: "getattr h' self ''conditions'' = Inr cv"
    using cv(1) by (simp add: self getattr_Inst [OF l])
  have gs: "getattr h' self ''softDollarTier'' = Inr sv"
    using sv(1) by (simp add: self getattr_Inst [OF l])
  show "\<exists>fs v w cv sv.
         B c args kwargs = Inr fs \<and> self = PRef (length h) \<and>
         map_of fs ''conditions'' = Some v \<and> map_of fs ''softDollarTier'' = Some w \<and>
         getattr h' self ''conditions'' = Inr cv \<and> cv \<noteq> PNone \<and>
         getattr h' self ''softDollarTier'' = Inr sv \<and> sv \<noteq> PNone \<and>
         (\<forall>a<length h. lookup h' a = lookup h a) \<and>
         (in_store h v \<longrightarrow>
            (if truthy u h v then cv = v
             else cv = PRef (length h + 1) \<and>
                  lookup h' (length h + 1) = Some (ListObj []))) \<and>
         (in_store h w \<longrightarrow>
            (if truthy u h w then sv = w
             else \<exists>t dfl. sv = PRef t \<and> length h < t \<and> (in_store h v \<longrightarrow> cv \<noteq> sv) \<and>
                    B SoftDollarTier [] [] = Inr dfl \<and>
                    lookup h' t = Some (Inst SoftDollarTier dfl)))"
  proof (intro exI conjI)
    show "B c args kwargs = Inr fs" by (rule B)
    show "self = PRef (length h)" by (rule self)
    show "map_of fs ''conditions'' = Some v" by (rule v)
    show "map_of fs ''softDollarTier'' = Some w" by (rule w)
    show "getattr h' self ''conditions'' = Inr cv" by (rule gc)
    show "cv \<noteq> PNone" by (rule cv(2))
    show "getattr h' self ''softDollarTier'' = Inr sv" by (rule gs)
    show "sv \<noteq> PNone" by (rule sv(2))
    show "\<forall>a<length h. lookup h' a = lookup h a" by (rule old)
    show "in_store h v \<longrightarrow>
        (if truthy u h v then cv = v
         else cv = PRef (length h + 1) \<and> lookup h' (length h + 1) = Some (ListObj []))"
      by (rule cf)
    show "in_store h w \<longrightarrow>
        (if truthy u h w then sv = w
         else \<exists>t dfl. sv = PRef t \<and> length h < t \<and> (in_store h v \<longrightarrow> cv \<noteq> sv) \<and>
                B SoftDollarTier [] [] = Inr dfl \<and> lookup h' t = Some (Inst SoftDollarTier dfl))"
      by (rule sf)
  qed
qed

theorem Order_init_never_null_witness:
  "(\<exists>h' t. Order_init_with (Object_init sample_ext) sample_ext [] Order [] [] = Inr (h', PRef 0) \<and>
      getattr h' (PRef 0) ''conditions'' = Inr (PRef 1) \<and> lookup h' 1 = Some (ListObj []) \<and>
      getattr h' (PRef 0) ''softDollarTier'' = Inr (PRef t) \<and> t \<noteq> 1 \<and>
      lookup h' t = Some (Inst SoftDollarTier (SoftDollarTier_defaults sample_ext))) \<and>
   (\<exists>h'. Order_init_with (Object_init sample_ext) sample_ext [ListObj [PInt 7]] Order []
             [(''conditions'', PRef 0)] = Inr (h', PRef 1) \<and>
      getattr h' (PRef 1) ''conditions'' = Inr (PRef 0) \<and>
      lookup h' 0 = Some (ListObj [PInt 7]))"
proof -
  let ?B = "Object_init sample_ext"
  let ?D = "Order_defaults sample_ext"
  have o: "is_Order Order"
    by (simp add: is_Order_def)
  have S: "?B SoftDollarTier [] [] = Inr (SoftDollarTier_defaults sample_ext)"
    by (rule Object_init_SoftDollarTier)
  have B1: "?B Order [] [] = Inr ?D"
    using Object_init_kwargs [of "[]" sample_ext Order] by simp
  have v1: "map_of ?D ''conditions'' = Some PNone" and w1: "map_of ?D ''softDollarTier'' = Some PNone"
    by (rule Order_defaults_lookup)+
  have n1: "''self'' \<notin> fst ` set ([] :: fields)"
    by simp
  note T1 = Order_init_never_null [where B = ?B and u = sample_ext and h = "[]" and c = Order
      and args = "[]" and kwargs = "[]" and ?fs0.0 = ?D
      and ?v0.0 = PNone and ?w0.0 = PNone and ?dfl0.0 = "SoftDollarTier_defaults sample_ext"]
  have "\<exists>h1. Order_init_with ?B sample_ext [] Order [] [] = Inr (h1, PRef (length ([] :: heap)))"
    by (rule T1 [THEN conjunct1, THEN mp]) (intro conjI B1 v1 w1 o S n1)
  then obtain h1 where r1: "Order_init_with ?B sample_ext [] Order [] [] = Inr (h1, PRef 0)"
    by auto
  from T1 [where h' = h1 and self = "PRef 0", THEN conjunct2, THEN mp, OF r1]
  obtain fs v w cv sv where
    f1: "?B Order [] [] = Inr fs" "map_of fs ''conditions'' = Some v"
      "map_of fs ''softDollarTier'' = Some w" and
    g1: "getattr h1 (PRef 0) ''conditions'' = Inr cv"
      "getattr h1 (PRef 0) ''softDollarTier'' = Inr sv" and
    cf: "in_store [] v \<longrightarrow>
        (if truthy sample_ext [] v then cv = v
         else cv = PRef (length ([] :: heap) + 1) \<and>
              lookup h1 (length ([] :: heap) + 1) = Some (ListObj []))" and
    sf: "in_store [] w \<longrightarrow>
        (if truthy sample_ext [] w then sv = w
         else \<exists>t dfl. sv = PRef t \<and> length ([] :: heap) < t \<and> (in_store [] v \<longrightarrow> cv \<noteq> sv) \<and>
                ?B SoftDollarTier [] [] = Inr dfl \<and> lookup h1 t = Some (Inst SoftDollarTier dfl))"
    by (elim exE conjE) (rule that, assumption+)
  have fs: "fs = ?D"
    using f1(1) B1 by simp
  have vw: "v = PNone" "w = PNone"
    using f1(2,3) v1 w1 by (simp_all add: fs)
  have nt: "in_store [] PNone" "\<not> truthy sample_ext [] PNone"
    by (simp_all add: in_store_def truthy_def)
  have cv: "cv = PRef 1" "lookup h1 1 = Some (ListObj [])"
    using cf nt by (simp_all add: vw)
  obtain t dfl where t: "sv = PRef t" "cv \<noteq> sv" "?B SoftDollarTier [] [] = Inr dfl"
      "lookup h1 t = Some (Inst SoftDollarTier dfl)"
    using sf nt by (auto simp: vw)
  have dfl: "dfl = SoftDollarTier_defaults sample_ext"
    using t(3) S by simp
  have 1: "\<exists>h' t. Order_init_with ?B sample_ext [] Order [] [] = Inr (h', PRef 0) \<and>
      getattr h' (PRef 0) ''conditions'' = Inr (PRef 1) \<and> lookup h' 1 = Some (ListObj []) \<and>
      getattr h' (PRef 0) ''softDollarTier'' = Inr (PRef t) \<and> t \<noteq> 1 \<and>
      lookup h' t = Some (Inst SoftDollarTier (SoftDollarTier_defaults sample_ext))"
  proof (intro exI conjI)
    show "Order_init_with ?B sample_ext [] Order [] [] = Inr (h1, PRef 0)" by (rule r1)
    show "getattr h1 (PRef 0) ''conditions'' = Inr (PRef 1)" using g1(1) cv(1) by simp
    show "lookup h1 1 = Some (ListObj [])" by (rule cv(2))
    show "getattr h1 (PRef 0) ''softDollarTier'' = Inr (PRef t)" using g1(2) t(1) by simp
    show "t \<noteq> 1" using t(1,2) cv(1) by auto
    show "lookup h1 t = Some (Inst SoftDollarTier (SoftDollarTier_defaults sample_ext))"
      using t(4) dfl by simp
  qed
  let ?h = "[ListObj [PInt 7]]"
  let ?kw = "[(''conditions'', PRef 0)]"
  let ?D2 = "dict_set ?D ''conditions'' (PRef 0)"
  have sub: "fst ` set ?kw \<subseteq> set (slots sample_ext Order)"
    using Order_slots [OF o, of sample_ext] by simp
  have B2: "?B Order [] ?kw = Inr ?D2"
    using Object_init_kwargs [OF sub] by simp
  have v2: "map_of ?D2 ''conditions'' = Some (PRef 0)"
    by (simp add: map_of_dict_set)
  have w2: "map_of ?D2 ''softDollarTier'' = Some PNone"
    using w1 by (simp add: map_of_dict_set)
  have n2: "''self'' \<notin> fst ` set ?kw"
    by simp
  note T2 = Order_init_never_null [where B = ?B and u = sample_ext and h = ?h and c = Order
      and args = "[]" and kwargs = ?kw and ?fs0.0 = ?D2
      and ?v0.0 = "PRef 0" and ?w0.0 = PNone and ?dfl0.0 = "SoftDollarTier_defaults sample_ext"]
  have "\<exists>h2. Order_init_with ?B sample_ext ?h Order [] ?kw = Inr (h2, PRef (length ?h))"
    by (rule T2 [THEN conjunct1, THEN mp]) (intro conjI B2 v2 w2 o S n2)
  then obtain h2 where r2: "Order_init_with ?B sample_ext ?h Order [] ?kw = Inr (h2, PRef 1)"
    by auto
  from T2 [where h' = h2 and self = "PRef 1", THEN conjunct2, THEN mp, OF r2]
  obtain fs' v' cv' where
    f2: "?B Order [] ?kw = Inr fs'" "map_of fs' ''conditions'' = Some v'" and
    g2: "getattr h2 (PRef 1) ''conditions'' = Inr cv'" and
    old: "\<forall>a<length ?h. lookup h2 a = lookup ?h a" and
    cf2: "in_store ?h v' \<longrightarrow>
        (if truthy sample_ext ?h v' then cv' = v'
         else cv' = PRef (length ?h + 1) \<and> lookup h2 (length ?h + 1) = Some (ListObj []))"
    by (elim exE conjE) (rule that, assumption+)
  have fs': "fs' = ?D2"
    using f2(1) B2 by simp
  have v': "v' = PRef 0"
    using f2(2) v2 by (simp add: fs')
  have tr: "in_store ?h (PRef 0)" "truthy sample_ext ?h (PRef 0)"
    by (simp_all add: in_store_def truthy_def lookup_def)
  have cv': "cv' = PRef 0"
    using cf2 tr by (simp add: v')
  have l0: "lookup h2 0 = Some (ListObj [PInt 7])"
    using old by (simp add: lookup_def)
  have 2: "\<exists>h'. Order_init_with ?B sample_ext ?h Order [] ?kw = Inr (h', PRef 1) \<and>
      getattr h' (PRef 1) ''conditions'' = Inr (PRef 0) \<and>
      lookup h' 0 = Some (ListObj [PInt 7])"
    using r2 g2 cv' l0 by auto
  from 1 2 show ?thesis
    by (rule conjI)
qed

section \<open>The typed orders\<close>

lemma typed_order_fields:
  assumes "call_keywords named kw = Inr kws" and "Order_init u h c [] kws = Inr (h', self)"
    and "map_of (rev named) k = Some x"
    and "k \<noteq> ''conditions''" and "k \<noteq> ''softDollarTier''"
  shows "getattr h' self k = Inr x"
proof -
  have kws: "kws = named @ kw" and dis: "fst ` set kw \<inter> fst ` set named = {}"
    using call_keywords_Inr [OF assms(1)] by simp_all
  have "k \<in> fst ` set (rev named)"
    using assms(3) by (rule map_of_Some_key)
  then have "k \<notin> fst ` set kw"
    using dis by auto
  then have "map_of (dict_update (defaults u c) (named @ kw)) k = Some x"
    using assms(3) by (simp add: map_of_dict_update_named)
  then show ?thesis
    using Order_init_attr [OF assms(2,4,5)] by (auto simp: kws)
qed

lemma typed_order_default:
  assumes "call_keywords named kw = Inr kws" and "Order_init u h c [] kws = Inr (h', self)"
    and "is_Order c" and "map_of (rev named) k = None" and "k \<notin> fst ` set kw"
    and "map_of (Order_defaults u) k = Some x"
    and "k \<noteq> ''conditions''" and "k \<noteq> ''softDollarTier''"
  shows "getattr h' self k = Inr x"
proof -
  have kws: "kws = named @ kw"
    using call_keywords_Inr [OF assms(1)] by simp
  have "map_of (dict_update (defaults u c) (named @ kw)) k = Some x"
    using assms(4,6) by (simp add: map_of_dict_update_named [OF assms(5)] is_Order_defaults [OF assms(3)])
  then show ?thesis
    using Order_init_attr [OF assms(2,7,8)] by (auto simp: kws)
qed

lemma typed_order_self:
  assumes "call_keywords named kw = Inr kws" and "Order_init u h c [] kws = Inr (h', self)"
  shows "self = PRef (length h) \<and> (\<exists>fs. lookup h' (length h) = Some (Inst c fs))"
  using Order_init_attr [OF assms(2), of "''action''"] by simp

lemma typed_order_returns:
  assumes "is_Order c" and "fst ` set named \<subseteq> fst ` set (Order_defaults u)"
    and "fst ` set kw \<subseteq> fst ` set (Order_defaults u) - fst ` set named"
  shows "call_keywords named kw = Inr (named @ kw) \<and>
         (\<exists>h'. Order_init u h c [] (named @ kw) = Inr (h', PRef (length h)))"
proof -
  have "fst ` set kw \<inter> fst ` set named = {}"
    using assms(3) by auto
  then have ck: "call_keywords named kw = Inr (named @ kw)"
    by (rule call_keywords_disjoint)
  have "fst ` set (named @ kw) \<subseteq> fst ` set (Order_defaults u)"
    using assms(2,3) by auto
  from Order_init_returns [OF assms(1) this] ck show ?thesis
    by simp
qed



lemma StopOrder_init_Inr:
  assumes "StopOrder_init u h a q sp kw = Inr (h', self)"
  shows "self = PRef (length h) \<and> (\<exists>fs. lookup h' (length h) = Some (Inst StopOrder fs)) \<and>
         getattr h' self ''orderType'' = Inr (PStr ''STP'') \<and>
         getattr h' self ''action'' = Inr a \<and>
         getattr h' self ''totalQuantity'' = Inr q \<and>
         getattr h' self ''auxPrice'' = Inr sp"
proof -
  let ?named = "[(''orderType'', PStr ''STP''), (''action'', a), (''totalQuantity'', q),
                 (''auxPrice'', sp)]"
  from assms obtain kws where ck: "call_keywords ?named kw = Inr kws"
    and oi: "Order_init u h StopOrder [] kws = Inr (h', self)"
    by (auto simp: StopOrder_init_def split: sum.splits dest!: bind_keywords_Inr)
  note f = typed_order_fields [OF ck oi]
  show ?thesis
    using typed_order_self [OF ck oi] f [of "''orderType''"] f [of "''action''"]
      f [of "''totalQuantity''"] f [of "''auxPrice''"]
    by simp
qed


lemma typed_order_override:
  assumes "call_keywords named kw = Inr kws" and "Order_init u h c [] kws = Inr (h', self)"
    and "map_of (rev kw) k = Some x"
    and "k \<noteq> ''conditions''" and "k \<noteq> ''softDollarTier''"
  shows "getattr h' self k = Inr x"
proof -
  have kws: "kws = named @ kw"
    using call_keywords_Inr [OF assms(1)] by simp
  have "map_of (dict_update (defaults u c) (named @ kw)) k = Some x"
    using assms(3) by (simp add: map_of_dict_update map_add_def)
  then show ?thesis
    using Order_init_attr [OF assms(2,4,5)] by (auto simp: kws)
qed

lemma call_keywords_collision:
  assumes "k \<in> fst ` set named" and "k \<in> fst ` set kw"
  shows "call_keywords named kw = Inl TypeError"
proof -
  have "k \<in> set (map fst kw)" and "k \<in> set (map fst named)"
    using assms by simp_all
  then have "list_ex (\<lambda>k. k \<in> set (map fst named)) (map fst kw)"
    unfolding list_ex_iff by (rule bexI [rotated])
  then show ?thesis
    by (simp add: call_keywords_def)
qed


lemma MarketOrder_init_returns:
  assumes "fst ` set kw \<subseteq> fst ` set (Order_defaults u) -
             {''orderType'', ''action'', ''totalQuantity''}"
  shows "\<exists>h'. MarketOrder_init u h a q kw = Inr (h', PRef (length h))"
proof -
  let ?named = "[(''orderType'', PStr ''MKT''), (''action'', a), (''totalQuantity'', q)]"
  have 1: "is_Order MarketOrder"
    by (simp add: is_Order_def)
  have 2: "fst ` set ?named \<subseteq> fst ` set (Order_defaults u)"
    by (simp add: Order_defaults_keys)
  have 3: "fst ` set kw \<subseteq> fst ` set (Order_defaults u) - fst ` set ?named"
    using assms by auto
  have "fst ` set kw \<inter> set [''self'', ''action'', ''totalQuantity''] = {}"
    using assms Order_defaults_no_key [of u] by auto
  then have 4: "bind_keywords [''self'', ''action'', ''totalQuantity''] kw = Inr kw"
    by (rule bind_keywords_disjoint)
  show ?thesis
    using typed_order_returns [OF 1 2 3, of h] by (simp add: MarketOrder_init_def 4)
qed

lemma StopOrder_init_returns:
  assumes "fst ` set kw \<subseteq> fst ` set (Order_defaults u) -
             {''orderType'', ''action'', ''totalQuantity'', ''auxPrice''}"
  shows "\<exists>h'. StopOrder_init u h a q sp kw = Inr (h', PRef (length h))"
proof -
  let ?named = "[(''orderType'', PStr ''STP''), (''action'', a), (''totalQuantity'', q),
                 (''auxPrice'', sp)]"
  have 1: "is_Order StopOrder"
    by (simp add: is_Order_def)
  have 2: "fst ` set ?named \<subseteq> fst ` set (Order_defaults u)"
    by (simp add: Order_defaults_keys)
  have 3: "fst ` set kw \<subseteq> fst ` set (Order_defaults u) - fst ` set ?named"
    using assms by auto
  have "fst ` set kw \<inter> set [''self'', ''action'', ''totalQuantity'', ''stopPrice''] = {}"
    using assms Order_defaults_no_key [of u] by auto
  then have 4: "bind_keywords [''self'', ''action'', ''totalQuantity'', ''stopPrice''] kw = Inr kw"
    by (rule bind_keywords_disjoint)
  show ?thesis
    using typed_order_returns [OF 1 2 3, of h] by (simp add: StopOrder_init_def 4)
qed






text \<open>
  An override that names a parameter of the constructor, or one of the keywords that the
  constructor passes itself, gives an argument twice, which raises \<^verbatim>\<open>TypeError\<close>.
\<close>

lemma typed_order_collision:
  assumes "k \<in> set ps \<union> fst ` set named" and "k \<in> fst ` set kw"
  shows "(case bind_keywords ps kw of
            Inl e \<Rightarrow> Inl e
          | Inr kw' \<Rightarrow> (case call_keywords named kw' of Inl e \<Rightarrow> Inl e | Inr kws \<Rightarrow> F kws)) =
         Inl TypeError"
proof (cases "bind_keywords ps kw")
  case (Inl e)
  then show ?thesis
    using bind_keywords_Inl [OF Inl] by simp
next
  case (Inr kw')
  from bind_keywords_Inr [OF Inr] have kw': "kw' = kw" and d: "fst ` set kw \<inter> set ps = {}"
    by simp_all
  have "k \<in> fst ` set named"
    using assms d by auto
  from call_keywords_collision [OF this assms(2)] show ?thesis
    by (simp add: Inr kw')
qed

lemma LimitOrder_init_collision:
  assumes "k \<in> {''self'', ''orderType'', ''action'', ''totalQuantity'', ''lmtPrice''}"
    and "k \<in> fst ` set kw"
  shows "LimitOrder_init u h a q p kw = Inl TypeError"
  unfolding LimitOrder_init_def
  by (rule typed_order_collision [OF _ assms(2)]) (use assms(1) in auto)

lemma MarketOrder_init_collision:
  assumes "k \<in> {''self'', ''orderType'', ''action'', ''totalQuantity''}"
    and "k \<in> fst ` set kw"
  shows "MarketOrder_init u h a q kw = Inl TypeError"
  unfolding MarketOrder_init_def
  by (rule typed_order_collision [OF _ assms(2)]) (use assms(1) in auto)

lemma StopOrder_init_collision:
  assumes "k \<in> {''self'', ''orderType'', ''action'', ''totalQuantity'', ''stopPrice'',
                 ''auxPrice''}"
    and "k \<in> fst ` set kw"
  shows "StopOrder_init u h a q sp kw = Inl TypeError"
  unfolding StopOrder_init_def
  by (rule typed_order_collision [OF _ assms(2)]) (use assms(1) in auto)

lemma StopLimitOrder_init_collision:
  assumes "k \<in> {''self'', ''orderType'', ''action'', ''totalQuantity'', ''lmtPrice'',
                 ''stopPrice'', ''auxPrice''}"
    and "k \<in> fst ` set kw"
  shows "StopLimitOrder_init u h a q p sp kw = Inl TypeError"
  unfolding StopLimitOrder_init_def
  by (rule typed_order_collision [OF _ assms(2)]) (use assms(1) in auto)

text \<open>The fields of an order that the typed constructors leave alone.\<close>

lemma MarketOrder_init_unset:
  assumes "MarketOrder_init u h a q [] = Inr (h', self)"
  shows "getattr h' self ''lmtPrice'' = Inr (PFloat (UNSET_DOUBLE u)) \<and>
         getattr h' self ''auxPrice'' = Inr (PFloat (UNSET_DOUBLE u))"
proof -
  let ?named = "[(''orderType'', PStr ''MKT''), (''action'', a), (''totalQuantity'', q)]"
  from assms obtain kws where ck: "call_keywords ?named [] = Inr kws"
    and oi: "Order_init u h MarketOrder [] kws = Inr (h', self)"
    by (auto simp: MarketOrder_init_def split: sum.splits dest!: bind_keywords_Inr)
  have o: "is_Order MarketOrder"
    by (simp add: is_Order_def)
  note d = typed_order_default [OF ck oi o]
  show ?thesis
    using d [OF _ _ Order_defaults_lookup(4)] d [OF _ _ Order_defaults_lookup(5)] by simp
qed

lemma StopOrder_init_unset:
  assumes "StopOrder_init u h a q sp [] = Inr (h', self)"
  shows "getattr h' self ''lmtPrice'' = Inr (PFloat (UNSET_DOUBLE u))"
proof -
  let ?named = "[(''orderType'', PStr ''STP''), (''action'', a), (''totalQuantity'', q),
                 (''auxPrice'', sp)]"
  from assms obtain kws where ck: "call_keywords ?named [] = Inr kws"
    and oi: "Order_init u h StopOrder [] kws = Inr (h', self)"
    by (auto simp: StopOrder_init_def split: sum.splits dest!: bind_keywords_Inr)
  have o: "is_Order StopOrder"
    by (simp add: is_Order_def)
  note d = typed_order_default [OF ck oi o]
  show ?thesis
    using d [OF _ _ Order_defaults_lookup(4)] by simp
qed



text \<open>
  Claim C10. A \<^verbatim>\<open>MarketOrder\<close> built without extra keyword arguments has \<^verbatim>\<open>lmtPrice\<close> and
  \<^verbatim>\<open>auxPrice\<close> at \<^verbatim>\<open>UNSET_DOUBLE\<close>, and a \<^verbatim>\<open>StopOrder\<close> built without extra keyword arguments
  has \<^verbatim>\<open>lmtPrice\<close> at \<^verbatim>\<open>UNSET_DOUBLE\<close> and \<^verbatim>\<open>auxPrice\<close> at the stop price. Both constructions
  return.
\<close>

theorem unset_sentinels_preserved:
  "(\<exists>h'. MarketOrder_init u h a q [] = Inr (h', PRef (length h)) \<and>
      getattr h' (PRef (length h)) ''lmtPrice'' = Inr (PFloat (UNSET_DOUBLE u)) \<and>
      getattr h' (PRef (length h)) ''auxPrice'' = Inr (PFloat (UNSET_DOUBLE u))) \<and>
   (\<exists>h'. StopOrder_init u h a q sp [] = Inr (h', PRef (length h)) \<and>
      getattr h' (PRef (length h)) ''lmtPrice'' = Inr (PFloat (UNSET_DOUBLE u)) \<and>
      getattr h' (PRef (length h)) ''auxPrice'' = Inr sp)"
proof
  obtain h1 where r: "MarketOrder_init u h a q [] = Inr (h1, PRef (length h))"
    using MarketOrder_init_returns [of "[]" u h a q] by auto
  from MarketOrder_init_unset [OF r] r
  show "\<exists>h'. MarketOrder_init u h a q [] = Inr (h', PRef (length h)) \<and>
      getattr h' (PRef (length h)) ''lmtPrice'' = Inr (PFloat (UNSET_DOUBLE u)) \<and>
      getattr h' (PRef (length h)) ''auxPrice'' = Inr (PFloat (UNSET_DOUBLE u))"
    by blast
next
  obtain h2 where r: "StopOrder_init u h a q sp [] = Inr (h2, PRef (length h))"
    using StopOrder_init_returns [of "[]" u h a q sp] by auto
  from StopOrder_init_unset [OF r] StopOrder_init_Inr [OF r] r
  show "\<exists>h'. StopOrder_init u h a q sp [] = Inr (h', PRef (length h)) \<and>
      getattr h' (PRef (length h)) ''lmtPrice'' = Inr (PFloat (UNSET_DOUBLE u)) \<and>
      getattr h' (PRef (length h)) ''auxPrice'' = Inr sp"
    by blast
qed

section \<open>The queries of a trade\<close>

lemma foldl_num_add_float:
  "foldl (num_add_float ar) (NFloat a) xs = NFloat (foldl (float_add ar) a xs)"
  by (induction xs arbitrary: a) simp_all

lemma py_sum_Nil: "py_sum ar [] = NInt 0"
  by (simp add: py_sum_def)

lemma py_sum_Cons:
  "py_sum ar (x # xs) =
     NFloat (foldl (float_add ar) (float_add ar (float_of_int ar 0) x) xs)"
  by (simp add: py_sum_def foldl_num_add_float)

lemma exact_adds_sum:
  "exact_adds ar v acc xs \<Longrightarrow>
   v (foldl (float_add ar) acc xs) = v acc + sum_list (map v xs)"
  by (induction xs arbitrary: acc) simp_all

lemma py_sum_exact:
  assumes "v (float_of_int ar 0) = 0" and "exact_adds ar v (float_of_int ar 0) xs"
  shows "num_val v (py_sum ar xs) = sum_list (map v xs)"
proof (cases xs)
  case Nil
  then show ?thesis by (simp add: py_sum_Nil)
next
  case (Cons y ys)
  then have "exact_adds ar v (float_add ar (float_of_int ar 0) y) ys"
    and "v (float_add ar (float_of_int ar 0) y) = v y"
    using assms by simp_all
  then show ?thesis
    using exact_adds_sum [of ar v "float_add ar (float_of_int ar 0) y" ys]
    by (simp add: Cons py_sum_Cons)
qed

lemma Trade_filled_Inr:
  assumes "Trade.contract t = Some c" and "Trade.fills t = Some fs"
  shows "Trade_filled ar t =
     Inr (if secType c = ''BAG''
          then py_sum ar (map (\<lambda>f. shares (execution f))
                 [f \<leftarrow> fs. secType (Fill.contract f) = ''BAG''])
          else py_sum ar (map (\<lambda>f. shares (execution f)) fs))"
  using assms by (simp add: Trade_filled_def)

text \<open>
  Claim C1. For a trade that has its contract and its list of fills, \<^verbatim>\<open>filled()\<close> returns
  the sum of \<^verbatim>\<open>execution.shares\<close> over the fills; when the contract of the trade has secType
  \<^verbatim>\<open>'BAG'\<close> only the fills whose own contract has secType \<^verbatim>\<open>'BAG'\<close> are summed, and otherwise
  all fills are. The sum is the one of the builtin \<^verbatim>\<open>sum\<close>, in float arithmetic: the int
  \<^verbatim>\<open>0\<close> for no fill, and otherwise the shares added from left to right, starting from
  \<^verbatim>\<open>0 + x\<close>. Under a reading of the floats as reals for which every one of these additions is
  exact, it is the sum of the values of the shares.
\<close>

theorem Trade_filled_sum:
  assumes "Trade.contract t = Some c" and "Trade.fills t = Some fs"
  shows "Trade_filled ar t =
     Inr (if secType c = ''BAG''
          then py_sum ar (map (\<lambda>f. shares (execution f))
                 [f \<leftarrow> fs. secType (Fill.contract f) = ''BAG''])
          else py_sum ar (map (\<lambda>f. shares (execution f)) fs)) \<and>
   py_sum ar [] = NInt 0 \<and>
   py_sum ar (x # xs) =
     NFloat (foldl (float_add ar) (float_add ar (float_of_int ar 0) x) xs) \<and>
   (v (float_of_int ar 0) = 0 \<and> exact_adds ar v (float_of_int ar 0) ys \<longrightarrow>
      num_val v (py_sum ar ys) = (\<Sum>y\<leftarrow>ys. v y))"
  using Trade_filled_Inr [OF assms, of ar] py_sum_Nil [of ar] py_sum_Cons [of ar x xs]
    py_sum_exact [of v ar ys]
  by simp

theorem Trade_filled_sum_witness:
  "Trade_filled exact_arith (sample_trade ''STK'' 200 ''Submitted''
      [sample_fill ''STK'' 100, sample_fill ''STK'' 50, sample_fill ''STK'' (- 20)]) =
     Inr (NFloat 130) \<and>
   Trade_filled exact_arith (sample_trade ''BAG'' 200 ''Submitted''
      [sample_fill ''BAG'' 75, sample_fill ''STK'' 40]) = Inr (NFloat 75) \<and>
   Trade_filled exact_arith (sample_trade ''STK'' 200 ''Submitted'' []) = Inr (NInt 0) \<and>
   exact_adds exact_arith (\<lambda>x. x) (float_of_int exact_arith 0) [100, 50, - 20] \<and>
   num_val (\<lambda>x. x) (py_sum exact_arith [100, 50, - 20]) = 130"
proof -
  have c: "Trade.contract (sample_trade s q st fs) = Some \<lparr>secType = s\<rparr>"
    and f: "Trade.fills (sample_trade s q st fs) = Some fs" for s q st fs
    by (simp_all add: sample_trade_def)
  have e: "float_of_int exact_arith 0 = 0"
    "exact_adds exact_arith (\<lambda>x. x) 0 [100, 50, - 20]"
    by (simp_all add: exact_arith_def)
  note T1 = Trade_filled_sum [where t = "sample_trade ''STK'' 200 ''Submitted''
        [sample_fill ''STK'' 100, sample_fill ''STK'' 50, sample_fill ''STK'' (- 20)]"
      and c = "\<lparr>secType = ''STK''\<rparr>"
      and fs = "[sample_fill ''STK'' 100, sample_fill ''STK'' 50, sample_fill ''STK'' (- 20)]"
      and ar = exact_arith and x = 100 and xs = "[50, - 20]" and v = "\<lambda>x. x"
      and ys = "[100, 50, - 20]", OF c f]
  note T2 = Trade_filled_sum [where t = "sample_trade ''BAG'' 200 ''Submitted''
        [sample_fill ''BAG'' 75, sample_fill ''STK'' 40]"
      and c = "\<lparr>secType = ''BAG''\<rparr>"
      and fs = "[sample_fill ''BAG'' 75, sample_fill ''STK'' 40]"
      and ar = exact_arith and x = 75 and xs = "[]" and v = "\<lambda>x. x" and ys = "[]", OF c f]
  note T3 = Trade_filled_sum [where t = "sample_trade ''STK'' 200 ''Submitted'' []"
      and c = "\<lparr>secType = ''STK''\<rparr>" and fs = "[]"
      and ar = exact_arith and x = 0 and xs = "[]" and v = "\<lambda>x. x" and ys = "[]", OF c f]
  have s: "py_sum exact_arith [100, 50, - 20] = NFloat 130"
    "py_sum exact_arith [75] = NFloat 75"
    using T1 T2 by (simp_all add: exact_arith_def)
  show ?thesis
    using T1 T2 T3 e s by (simp add: sample_fill_def exact_arith_def)
qed

text \<open>When the contract or the list of fills is \<^verbatim>\<open>None\<close> the query raises.\<close>

lemma Trade_filled_raises:
  "Trade.contract t = None \<Longrightarrow> Trade_filled ar t = Inl AttributeError"
  "Trade.contract t = Some c \<Longrightarrow> Trade.fills t = None \<Longrightarrow> Trade_filled ar t = Inl TypeError"
  by (simp_all add: Trade_filled_def)

text \<open>
  Claim C3. For a trade that has its order status, \<^verbatim>\<open>isActive()\<close> is true iff the status
  is one of PendingSubmit, ApiPending, PreSubmitted, Submitted, and \<^verbatim>\<open>isDone()\<close> is true iff
  it is one of Filled, Cancelled, ApiCancelled; for PendingCancel and for Inactive both are
  false.
\<close>

theorem Trade_isActive_isDone:
  "orderStatus t = Some os \<Longrightarrow>
   Trade_isActive t =
     Inr (status os \<in> {''PendingSubmit'', ''ApiPending'', ''PreSubmitted'', ''Submitted''}) \<and>
   Trade_isDone t = Inr (status os \<in> {''Filled'', ''Cancelled'', ''ApiCancelled''}) \<and>
   (status os \<in> {''PendingCancel'', ''Inactive''} \<longrightarrow>
      Trade_isActive t = Inr False \<and> Trade_isDone t = Inr False)"
  by (auto simp add: Trade_isActive_def Trade_isDone_def ActiveStates_def DoneStates_def)

theorem Trade_isActive_isDone_witness:
  "Trade_isActive (sample_trade ''STK'' 200 ''Submitted'' []) = Inr True \<and>
   Trade_isDone (sample_trade ''STK'' 200 ''Submitted'' []) = Inr False \<and>
   Trade_isActive (sample_trade ''STK'' 200 ''Filled'' []) = Inr False \<and>
   Trade_isDone (sample_trade ''STK'' 200 ''Filled'' []) = Inr True \<and>
   Trade_isActive (sample_trade ''STK'' 200 ''PendingCancel'' []) = Inr False \<and>
   Trade_isDone (sample_trade ''STK'' 200 ''PendingCancel'' []) = Inr False"
proof -
  have os: "\<exists>os. orderStatus (sample_trade ''STK'' 200 s []) = Some os \<and> status os = s" for s
    by (simp add: sample_trade_def)
  obtain s1 where s1: "orderStatus (sample_trade ''STK'' 200 ''Submitted'' []) = Some s1"
      "status s1 = ''Submitted''"
    using os by blast
  obtain s2 where s2: "orderStatus (sample_trade ''STK'' 200 ''Filled'' []) = Some s2"
      "status s2 = ''Filled''"
    using os by blast
  obtain s3 where s3: "orderStatus (sample_trade ''STK'' 200 ''PendingCancel'' []) = Some s3"
      "status s3 = ''PendingCancel''"
    using os by blast
  show ?thesis
    using Trade_isActive_isDone [OF s1(1)] Trade_isActive_isDone [OF s2(1)]
      Trade_isActive_isDone [OF s3(1)] s1(2) s2(2) s3(2)
    by simp
qed

text \<open>
  Claim C4. For a trade that has its order, \<^verbatim>\<open>remaining()\<close> returns the order's
  \<^verbatim>\<open>totalQuantity\<close> minus \<^verbatim>\<open>filled()\<close>, a float subtraction in which an int result of
  \<^verbatim>\<open>filled()\<close> is converted first. Nothing is clamped: under a reading of the floats as reals
  for which the subtraction is exact, the result is negative when the filled quantity
  exceeds the total quantity.
\<close>

theorem Trade_remaining_unclamped:
  assumes "Trade.order t = Some ord" and "Trade_filled ar t = Inr n"
  shows "Trade_remaining ar t = Inr (float_sub_num ar (totalQuantity ord) n) \<and>
   float_sub_num ar x (NFloat y) = float_sub ar x y \<and>
   float_sub_num ar x (NInt i) = float_sub ar x (float_of_int ar i) \<and>
   (v (float_sub_num ar (totalQuantity ord) n) = v (totalQuantity ord) - num_val v n \<and>
    v (totalQuantity ord) < num_val v n \<longrightarrow>
      (\<exists>r. Trade_remaining ar t = Inr r \<and> v r < 0))"
  using assms by (simp add: Trade_remaining_def)

theorem Trade_remaining_unclamped_witness:
  "Trade_remaining exact_arith (sample_trade ''STK'' 200 ''Submitted''
      [sample_fill ''STK'' 100, sample_fill ''STK'' 50, sample_fill ''STK'' (- 20)]) = Inr 70 \<and>
   Trade_remaining exact_arith (sample_trade ''STK'' 200 ''Submitted''
      [sample_fill ''STK'' 250]) = Inr (- 50) \<and>
   (\<exists>r. Trade_remaining exact_arith (sample_trade ''STK'' 200 ''Submitted''
      [sample_fill ''STK'' 250]) = Inr r \<and> r < 0)"
proof -
  have ord: "\<exists>ord. Trade.order (sample_trade t q s fs) = Some ord \<and> totalQuantity ord = q"
    for t q s fs
    by (simp add: sample_trade_def)
  have f1: "Trade_filled exact_arith (sample_trade ''STK'' 200 ''Submitted''
      [sample_fill ''STK'' 100, sample_fill ''STK'' 50, sample_fill ''STK'' (- 20)]) =
      Inr (NFloat 130)"
    by (simp add: Trade_filled_def py_sum_def sample_trade_def sample_fill_def exact_arith_def)
  have f2: "Trade_filled exact_arith (sample_trade ''STK'' 200 ''Submitted''
      [sample_fill ''STK'' 250]) = Inr (NFloat 250)"
    by (simp add: Trade_filled_def py_sum_def sample_trade_def sample_fill_def exact_arith_def)
  obtain o1 where o1: "Trade.order (sample_trade ''STK'' 200 ''Submitted''
      [sample_fill ''STK'' 100, sample_fill ''STK'' 50, sample_fill ''STK'' (- 20)]) = Some o1"
      "totalQuantity o1 = 200"
    using ord by blast
  obtain o2 where o2: "Trade.order (sample_trade ''STK'' 200 ''Submitted''
      [sample_fill ''STK'' 250]) = Some o2" "totalQuantity o2 = 200"
    using ord by blast
  show ?thesis
    using Trade_remaining_unclamped [OF o1(1) f1, where v = "\<lambda>x. x"]
      Trade_remaining_unclamped [OF o2(1) f2, where v = "\<lambda>x. x"]
      o1(2) o2(2)
    by (simp add: exact_arith_def)
qed

text \<open>When the order is \<^verbatim>\<open>None\<close> the query raises.\<close>

lemma Trade_remaining_raises:
  "Trade.order t = None \<Longrightarrow> Trade_remaining ar t = Inl AttributeError"
  by (simp add: Trade_remaining_def)

end
